theory Spec2Isabelle
  imports Complex_Main
begin

section \<open>Dense arrays and the numeric-library operations used by \<open>rnn_layers.py\<close>\<close>

text \<open>
  The layers of \<open>rnn_layers.py\<close> work on NumPy arrays of rank 1, 2 and 3. The rank of
  every argument is fixed by the docstrings, so each rank is a type of its own; the extent of
  every axis is a run-time value and is checked by the library, which raises
  \<open>ValueError\<close> on a mismatch. An array is its shape together with its row-major buffer.
  A rank-1 array is a plain list: its shape is its length.

  Scalars are real numbers: the arithmetic of the layers is modelled exactly, without the
  rounding of double precision. The one operation that leaves the reals is a division by
  zero, whose NumPy result (\<open>nan\<close> or an infinity, with a warning and no exception) is kept
  apart as \<open>NanOrInf\<close>.
\<close>

datatype error = ValueError | IndexError | UnboundLocalError

datatype npfloat = Finite real | NanOrInf

record 'a arr2 =
  rows :: nat
  cols :: nat
  buf2 :: "'a list"

record 'a arr3 =
  dim0 :: nat
  dim1 :: nat
  dim2 :: nat
  buf3 :: "'a list"

text \<open>An array whose rank is only known at run time (the result of \<open>np.array\<close> on a list).\<close>

datatype 'a ndarray = A1 "'a list" | A2 "'a arr2" | A3 "'a arr3"

definition wf2 :: "'a arr2 \<Rightarrow> bool" where
  "wf2 a = (length (buf2 a) = rows a * cols a)"

definition wf3 :: "'a arr3 \<Rightarrow> bool" where
  "wf3 a = (length (buf3 a) = dim0 a * dim1 a * dim2 a)"

definition at2 :: "'a arr2 \<Rightarrow> nat \<Rightarrow> nat \<Rightarrow> 'a" where
  "at2 a i j = buf2 a ! (i * cols a + j)"

definition at3 :: "'a arr3 \<Rightarrow> nat \<Rightarrow> nat \<Rightarrow> nat \<Rightarrow> 'a" where
  "at3 a i t k = buf3 a ! ((i * dim1 a + t) * dim2 a + k)"

definition tab2 :: "nat \<Rightarrow> nat \<Rightarrow> (nat \<Rightarrow> nat \<Rightarrow> 'a) \<Rightarrow> 'a list" where
  "tab2 n m f = concat (map (\<lambda>i. map (f i) [0..<m]) [0..<n])"

definition mk2 :: "nat \<Rightarrow> nat \<Rightarrow> (nat \<Rightarrow> nat \<Rightarrow> 'a) \<Rightarrow> 'a arr2" where
  "mk2 n m f = \<lparr>rows = n, cols = m, buf2 = tab2 n m f\<rparr>"

definition mk3 :: "nat \<Rightarrow> nat \<Rightarrow> nat \<Rightarrow> (nat \<Rightarrow> nat \<Rightarrow> nat \<Rightarrow> 'a) \<Rightarrow> 'a arr3" where
  "mk3 n m l f = \<lparr>dim0 = n, dim1 = m, dim2 = l,
                  buf3 = tab2 (n * m) l (\<lambda>r k. f (r div m) (r mod m) k)\<rparr>"

definition ebind :: "error + 'a \<Rightarrow> ('a \<Rightarrow> error + 'b) \<Rightarrow> error + 'b" where
  "ebind m f = (case m of Inl e \<Rightarrow> Inl e | Inr v \<Rightarrow> f v)"

text \<open>Python list indexing with a non-negative index.\<close>

definition py_index :: "'a list \<Rightarrow> nat \<Rightarrow> error + 'a" where
  "py_index xs i = (if i < length xs then Inr (xs ! i) else Inl IndexError)"

subsection \<open>Broadcasting\<close>

text \<open>
  Two axes are compatible when their extents are equal or one of them is 1; the axis of
  extent 1 is then read at index 0 throughout.
\<close>

definition bdim :: "nat \<Rightarrow> nat \<Rightarrow> nat option" where
  "bdim m n = (if m = n then Some m else if m = 1 then Some n else if n = 1 then Some m else None)"

definition bidx :: "nat \<Rightarrow> nat \<Rightarrow> nat" where
  "bidx m i = (if m = 1 then 0 else i)"

definition np_binop2 :: "(real \<Rightarrow> real \<Rightarrow> real) \<Rightarrow> real arr2 \<Rightarrow> real arr2 \<Rightarrow> error + real arr2" where
  "np_binop2 f a b =
     (case (bdim (rows a) (rows b), bdim (cols a) (cols b)) of
        (Some r, Some c) \<Rightarrow>
          Inr (mk2 r c (\<lambda>i j. f (at2 a (bidx (rows a) i) (bidx (cols a) j))
                                 (at2 b (bidx (rows b) i) (bidx (cols b) j))))
      | _ \<Rightarrow> Inl ValueError)"

text \<open>A rank-1 operand is aligned with the last axis: it is a single row.\<close>

definition as_row :: "'a list \<Rightarrow> 'a arr2" where
  "as_row v = \<lparr>rows = 1, cols = length v, buf2 = v\<rparr>"

definition np_add2 :: "real arr2 \<Rightarrow> real arr2 \<Rightarrow> error + real arr2" where
  "np_add2 a b = np_binop2 (+) a b"

definition np_mul2 :: "real arr2 \<Rightarrow> real arr2 \<Rightarrow> error + real arr2" where
  "np_mul2 a b = np_binop2 (*) a b"

definition np_add21 :: "real arr2 \<Rightarrow> real list \<Rightarrow> error + real arr2" where
  "np_add21 a v = np_add2 a (as_row v)"

text \<open>In-place addition \<open>a += b\<close>: \<open>b\<close> must broadcast to the shape of \<open>a\<close>.\<close>

definition np_iadd2 :: "real arr2 \<Rightarrow> real arr2 \<Rightarrow> error + real arr2" where
  "np_iadd2 a b =
     (if (rows b = rows a \<or> rows b = 1) \<and> (cols b = cols a \<or> cols b = 1)
      then Inr (mk2 (rows a) (cols a)
                  (\<lambda>i j. at2 a i j + at2 b (bidx (rows b) i) (bidx (cols b) j)))
      else Inl ValueError)"

definition np_iadd1 :: "real list \<Rightarrow> real list \<Rightarrow> error + real list" where
  "np_iadd1 a b =
     (if length b = length a \<or> length b = 1
      then Inr (map (\<lambda>j. a ! j + b ! bidx (length b) j) [0..<length a])
      else Inl ValueError)"

subsection \<open>Products, transposition, reductions, slices\<close>

definition np_dot :: "real arr2 \<Rightarrow> real arr2 \<Rightarrow> error + real arr2" where
  "np_dot a b =
     (if cols a = rows b
      then Inr (mk2 (rows a) (cols b)
                  (\<lambda>i j. sum_list (map (\<lambda>k. at2 a i k * at2 b k j) [0..<cols a])))
      else Inl ValueError)"

definition np_dot12 :: "real list \<Rightarrow> real arr2 \<Rightarrow> error + real list" where
  "np_dot12 v b =
     (if length v = rows b
      then Inr (map (\<lambda>j. sum_list (map (\<lambda>k. v ! k * at2 b k j) [0..<length v])) [0..<cols b])
      else Inl ValueError)"

definition np_transpose2 :: "'a arr2 \<Rightarrow> 'a arr2" where
  "np_transpose2 a = mk2 (cols a) (rows a) (\<lambda>i j. at2 a j i)"

definition np_map2 :: "('a \<Rightarrow> 'b) \<Rightarrow> 'a arr2 \<Rightarrow> 'b arr2" where
  "np_map2 f a = \<lparr>rows = rows a, cols = cols a, buf2 = map f (buf2 a)\<rparr>"

definition np_sum_axis0 :: "real arr2 \<Rightarrow> real list" where
  "np_sum_axis0 a = map (\<lambda>j. sum_list (map (\<lambda>i. at2 a i j) [0..<rows a])) [0..<cols a]"

definition np_sum_axis1 :: "real arr2 \<Rightarrow> real list" where
  "np_sum_axis1 a = map (\<lambda>i. sum_list (map (\<lambda>j. at2 a i j) [0..<cols a])) [0..<rows a]"

text \<open>\<open>a[:, t, :]\<close>\<close>

definition slice_t :: "'a arr3 \<Rightarrow> nat \<Rightarrow> error + 'a arr2" where
  "slice_t a t =
     (if t < dim1 a then Inr (mk2 (dim0 a) (dim2 a) (\<lambda>i k. at3 a i t k)) else Inl IndexError)"

text \<open>
  \<open>np.transpose(hs, [1, 0, 2])\<close> on a Python list of rank-2 arrays: the list is first turned
  into an array. The empty list gives a rank-1 array, which has no three axes to permute;
  arrays of unequal shapes do not stack to rank 3 either.
\<close>

definition np_transpose_102 :: "'a arr2 list \<Rightarrow> error + 'a arr3" where
  "np_transpose_102 hs =
     (case hs of
        [] \<Rightarrow> Inl ValueError
      | h # _ \<Rightarrow>
          if (\<forall>g \<in> set hs. rows g = rows h \<and> cols g = cols h)
          then Inr (mk3 (rows h) (length hs) (cols h) (\<lambda>i t k. at2 (hs ! t) i k))
          else Inl ValueError)"

section \<open>StepCell: one timestep of the vanilla RNN\<close>

record step_cache =
  c_x :: "real arr2"
  c_prev_h :: "real arr2"
  c_next_h :: "real arr2"
  c_Wh :: "real arr2"
  c_Wx :: "real arr2"

definition rnn_step_forward ::
  "real arr2 \<Rightarrow> real arr2 \<Rightarrow> real arr2 \<Rightarrow> real arr2 \<Rightarrow> real list \<Rightarrow> error + (real arr2 \<times> step_cache)" where
  "rnn_step_forward x prev_h Wx Wh b =
     ebind (np_dot x Wx) (\<lambda>xw.
     ebind (np_dot prev_h Wh) (\<lambda>hw.
     ebind (np_add2 xw hw) (\<lambda>s.
     ebind (np_add21 s b) (\<lambda>z.
       let next_h = np_map2 tanh z
       in Inr (next_h, \<lparr>c_x = x, c_prev_h = prev_h, c_next_h = next_h, c_Wh = Wh, c_Wx = Wx\<rparr>)))))"

definition rnn_step_backward ::
  "real arr2 \<Rightarrow> step_cache \<Rightarrow>
     error + (real arr2 \<times> real arr2 \<times> real arr2 \<times> real arr2 \<times> real list)" where
  "rnn_step_backward dnext_h cache =
     (let x = c_x cache; prev_h = c_prev_h cache; next_h = c_next_h cache;
          Wh = c_Wh cache; Wx = c_Wx cache
      in ebind (np_mul2 dnext_h (np_map2 (\<lambda>v. 1 - v ^ 2) next_h)) (\<lambda>de_dz.
         ebind (np_dot (np_transpose2 prev_h) de_dz) (\<lambda>dWh.
         ebind (np_dot (np_transpose2 x) de_dz) (\<lambda>dWx.
         ebind (np_dot de_dz (np_transpose2 Wx)) (\<lambda>dx.
         ebind (np_dot de_dz (np_transpose2 Wh)) (\<lambda>dprev_h.
           Inr (dx, dprev_h, dWx, dWh, np_sum_axis0 de_dz)))))))"

section \<open>SequenceRunner: the RNN over a whole sequence\<close>

text \<open>
  The loop of \<open>rnn_forward\<close> over \<open>range(x.shape[1])\<close>; its state is \<open>prev_h\<close> and the two
  Python lists \<open>h\<close> and \<open>cache\<close>.
\<close>

fun rnn_forward_loop ::
  "real arr3 \<Rightarrow> real arr2 \<Rightarrow> real arr2 \<Rightarrow> real list \<Rightarrow> nat list \<Rightarrow>
     real arr2 \<times> real arr2 list \<times> step_cache list \<Rightarrow>
     error + (real arr2 \<times> real arr2 list \<times> step_cache list)" where
  "rnn_forward_loop x Wx Wh b [] st = Inr st"
| "rnn_forward_loop x Wx Wh b (timestep # ts) (prev_h, h, cache) =
     ebind (slice_t x timestep) (\<lambda>xt.
     ebind (rnn_step_forward xt prev_h Wx Wh b) (\<lambda>(h_current, cache_current).
       rnn_forward_loop x Wx Wh b ts
         (c_next_h cache_current, h @ [h_current], cache @ [cache_current])))"

definition rnn_forward ::
  "real arr3 \<Rightarrow> real arr2 \<Rightarrow> real arr2 \<Rightarrow> real arr2 \<Rightarrow> real list \<Rightarrow>
     error + (real arr3 \<times> step_cache list)" where
  "rnn_forward x h0 Wx Wh b =
     ebind (rnn_forward_loop x Wx Wh b [0..<dim1 x] (h0, [], [])) (\<lambda>(prev_h, h, cache).
     ebind (np_transpose_102 h) (\<lambda>h'. Inr (h', cache)))"

text \<open>
  The loop of \<open>rnn_backward\<close> over \<open>range(dh.shape[1]-1, -1, -1)\<close>. The names \<open>dh0\<close>,
  \<open>dWx\<close>, \<open>dWh\<close> and \<open>db\<close> are bound by the first branch only: until then they are
  unbound (\<open>None\<close>), and reading them raises \<open>UnboundLocalError\<close>. The test
  \<open>timestep == dh.shape[1]-1\<close> is only reached when there is a timestep, so the
  subtraction does not go below zero.
\<close>

type_synonym grads = "real arr2 \<times> real arr2 \<times> real arr2 \<times> real list"

fun rnn_backward_loop ::
  "real arr3 \<Rightarrow> step_cache list \<Rightarrow> nat list \<Rightarrow> real arr2 list \<times> grads option \<Rightarrow>
     error + (real arr2 list \<times> grads option)" where
  "rnn_backward_loop dh cache [] st = Inr st"
| "rnn_backward_loop dh cache (timestep # ts) (dx, acc) =
     (if timestep = dim1 dh - 1 then
        ebind (slice_t dh timestep) (\<lambda>g.
        ebind (py_index cache timestep) (\<lambda>c.
        ebind (rnn_step_backward g c) (\<lambda>(dx_current, dh0, dWx, dWh, db).
          rnn_backward_loop dh cache ts (dx @ [dx_current], Some (dh0, dWx, dWh, db)))))
      else
        ebind (slice_t dh timestep) (\<lambda>g.
          case acc of
            None \<Rightarrow> Inl UnboundLocalError
          | Some (dh0, dWx, dWh, db) \<Rightarrow>
              ebind (np_add2 g dh0) (\<lambda>g'.
              ebind (py_index cache timestep) (\<lambda>c.
              ebind (rnn_step_backward g' c)
                (\<lambda>(dx_current, dh0', dWx_current, dWh_current, db_current).
              ebind (np_iadd2 dWx dWx_current) (\<lambda>dWx'.
              ebind (np_iadd2 dWh dWh_current) (\<lambda>dWh'.
              ebind (np_iadd1 db db_current) (\<lambda>db'.
                rnn_backward_loop dh cache ts
                  (dx @ [dx_current], Some (dh0', dWx', dWh', db'))))))))))"

definition rnn_backward ::
  "real arr3 \<Rightarrow> step_cache list \<Rightarrow>
     error + (real arr3 \<times> real arr2 \<times> real arr2 \<times> real arr2 \<times> real list)" where
  "rnn_backward dh cache =
     ebind (rnn_backward_loop dh cache (rev [0..<dim1 dh]) ([], None)) (\<lambda>(dx, acc).
     ebind (np_transpose_102 (rev dx)) (\<lambda>dx'.
       case acc of
         None \<Rightarrow> Inl UnboundLocalError
       | Some (dh0, dWx, dWh, db) \<Rightarrow> Inr (dx', dh0, dWx, dWh, db)))"

section \<open>MaskedAverager\<close>

text \<open>
  \<open>a / c\<close> on NumPy values: a zero divisor raises nothing. The library emits a
  \<open>RuntimeWarning\<close> and the quotient is \<open>nan\<close> or an infinity.
\<close>

definition np_true_divide :: "real \<Rightarrow> real \<Rightarrow> npfloat" where
  "np_true_divide a c = (if c = 0 then NanOrInf else Finite (a / c))"

text \<open>\<open>a[i]\<close> on arrays of rank 2 and 3, and \<open>a[i, j]\<close>.\<close>

definition np_row2 :: "'a arr2 \<Rightarrow> nat \<Rightarrow> error + 'a list" where
  "np_row2 a i = (if i < rows a then Inr (map (\<lambda>j. at2 a i j) [0..<cols a]) else Inl IndexError)"

definition np_sub3 :: "'a arr3 \<Rightarrow> nat \<Rightarrow> error + 'a arr2" where
  "np_sub3 a i =
     (if i < dim0 a then Inr (mk2 (dim1 a) (dim2 a) (\<lambda>t k. at3 a i t k)) else Inl IndexError)"

definition np_item2 :: "'a arr2 \<Rightarrow> nat \<Rightarrow> nat \<Rightarrow> error + 'a" where
  "np_item2 a i j = (if i < rows a \<and> j < cols a then Inr (at2 a i j) else Inl IndexError)"

text \<open>
  \<open>np.array\<close> on a Python list of rank-1 arrays, and on a list of lists of rank-1 arrays.
  The empty list gives the empty rank-1 array of shape \<open>(0,)\<close>; a list of empty lists gives a
  rank-2 array of shape \<open>(n, 0)\<close>.
\<close>

definition np_array_rows :: "'a list list \<Rightarrow> error + 'a ndarray" where
  "np_array_rows rs =
     (case rs of
        [] \<Rightarrow> Inr (A1 [])
      | r # _ \<Rightarrow>
          if (\<forall>q \<in> set rs. length q = length r)
          then Inr (A2 \<lparr>rows = length rs, cols = length r, buf2 = concat rs\<rparr>)
          else Inl ValueError)"

definition np_array_rows2 :: "'a list list list \<Rightarrow> error + 'a ndarray" where
  "np_array_rows2 rss =
     (case rss of
        [] \<Rightarrow> Inr (A1 [])
      | rs # _ \<Rightarrow>
          if (\<exists>qs \<in> set rss. length qs \<noteq> length rs) then Inl ValueError
          else (case rs of
                  [] \<Rightarrow> Inr (A2 \<lparr>rows = length rss, cols = 0, buf2 = []\<rparr>)
                | r # _ \<Rightarrow>
                    if (\<forall>qs \<in> set rss. \<forall>q \<in> set qs. length q = length r)
                    then Inr (A3 \<lparr>dim0 = length rss, dim1 = length rs, dim2 = length r,
                                  buf3 = concat (concat rss)\<rparr>)
                    else Inl ValueError))"

record avg_cache =
  ac_mask :: "real arr2"
  ac_count :: "real list"

fun average_forward_loop ::
  "real arr3 \<Rightarrow> real arr2 \<Rightarrow> real list \<Rightarrow> nat list \<Rightarrow> npfloat list list \<Rightarrow>
     error + npfloat list list" where
  "average_forward_loop hi msk count [] ho = Inr ho"
| "average_forward_loop hi msk count (i # rest) ho =
     ebind (np_row2 msk i) (\<lambda>m.
     ebind (np_sub3 hi i) (\<lambda>h.
     ebind (np_dot12 m h) (\<lambda>s.
     ebind (py_index count i) (\<lambda>c.
       average_forward_loop hi msk count rest (ho @ [map (\<lambda>v. np_true_divide v c) s])))))"

definition average_forward ::
  "real arr3 \<Rightarrow> real arr2 \<Rightarrow> error + (npfloat ndarray \<times> avg_cache)" where
  "average_forward hi msk =
     (let N = dim0 hi; count = np_sum_axis1 msk
      in ebind (average_forward_loop hi msk count [0..<N] []) (\<lambda>ho.
         ebind (np_array_rows ho) (\<lambda>ho'.
           Inr (ho', \<lparr>ac_mask = msk, ac_count = count\<rparr>))))"

fun average_backward_inner ::
  "real arr2 \<Rightarrow> avg_cache \<Rightarrow> nat \<Rightarrow> nat list \<Rightarrow> npfloat list list \<Rightarrow>
     error + npfloat list list" where
  "average_backward_inner dho cache i [] tmph = Inr tmph"
| "average_backward_inner dho cache i (j # js) tmph =
     ebind (np_row2 dho i) (\<lambda>d.
     ebind (np_item2 (ac_mask cache) i j) (\<lambda>m.
     ebind (py_index (ac_count cache) i) (\<lambda>c.
       average_backward_inner dho cache i js
         (tmph @ [map (\<lambda>v. np_true_divide (v * m) c) d]))))"

fun average_backward_outer ::
  "real arr2 \<Rightarrow> avg_cache \<Rightarrow> nat \<Rightarrow> nat list \<Rightarrow> npfloat list list list \<Rightarrow>
     error + npfloat list list list" where
  "average_backward_outer dho cache T [] dhi = Inr dhi"
| "average_backward_outer dho cache T (i # rest) dhi =
     ebind (average_backward_inner dho cache i [0..<T] []) (\<lambda>tmph.
       average_backward_outer dho cache T rest (dhi @ [tmph]))"

definition average_backward :: "real arr2 \<Rightarrow> avg_cache \<Rightarrow> error + npfloat ndarray" where
  "average_backward dho cache =
     (let N = rows dho; T = cols (ac_mask cache)
      in ebind (average_backward_outer dho cache T [0..<N] []) np_array_rows2)"

section \<open>TemporalAffine\<close>

text \<open>\<open>reshape\<close> keeps the row-major buffer and changes the shape; the sizes must agree.\<close>

definition np_reshape32 :: "'a arr3 \<Rightarrow> nat \<Rightarrow> nat \<Rightarrow> error + 'a arr2" where
  "np_reshape32 a n m =
     (if dim0 a * dim1 a * dim2 a = n * m
      then Inr \<lparr>rows = n, cols = m, buf2 = buf3 a\<rparr> else Inl ValueError)"

definition np_reshape23 :: "'a arr2 \<Rightarrow> nat \<Rightarrow> nat \<Rightarrow> nat \<Rightarrow> error + 'a arr3" where
  "np_reshape23 a n m l =
     (if rows a * cols a = n * m * l
      then Inr \<lparr>dim0 = n, dim1 = m, dim2 = l, buf3 = buf2 a\<rparr> else Inl ValueError)"

definition np_add31 :: "real arr3 \<Rightarrow> real list \<Rightarrow> error + real arr3" where
  "np_add31 a v =
     (case bdim (dim2 a) (length v) of
        Some c \<Rightarrow>
          Inr (mk3 (dim0 a) (dim1 a) c
                 (\<lambda>i t k. at3 a i t (bidx (dim2 a) k) + v ! bidx (length v) k))
      | None \<Rightarrow> Inl ValueError)"

definition np_sum_axis01 :: "real arr3 \<Rightarrow> real list" where
  "np_sum_axis01 a =
     map (\<lambda>k. sum_list (map (\<lambda>i. sum_list (map (\<lambda>t. at3 a i t k) [0..<dim1 a])) [0..<dim0 a]))
       [0..<dim2 a]"

type_synonym affine_cache = "real arr3 \<times> real arr2 \<times> real list \<times> real arr3"

definition temporal_affine_forward ::
  "real arr3 \<Rightarrow> real arr2 \<Rightarrow> real list \<Rightarrow> error + (real arr3 \<times> affine_cache)" where
  "temporal_affine_forward x w b =
     (let N = dim0 x; T = dim1 x; D = dim2 x; M = length b
      in ebind (np_reshape32 x (N * T) D) (\<lambda>x2.
         ebind (np_dot x2 w) (\<lambda>y.
         ebind (np_reshape23 y N T M) (\<lambda>y3.
         ebind (np_add31 y3 b) (\<lambda>out.
           Inr (out, (x, w, b, out)))))))"

definition temporal_affine_backward ::
  "real arr3 \<Rightarrow> affine_cache \<Rightarrow> error + (real arr3 \<times> real arr2 \<times> real list)" where
  "temporal_affine_backward dout cache =
     (case cache of (x, w, b, out) \<Rightarrow>
        let N = dim0 x; T = dim1 x; D = dim2 x; M = length b
        in ebind (np_reshape32 dout (N * T) M) (\<lambda>d2.
           ebind (np_dot d2 (np_transpose2 w)) (\<lambda>dx2.
           ebind (np_reshape23 dx2 N T D) (\<lambda>dx.
           ebind (np_reshape32 dout (N * T) M) (\<lambda>d2'.
           ebind (np_reshape32 x (N * T) D) (\<lambda>x2.
           ebind (np_dot (np_transpose2 d2') x2) (\<lambda>dwT.
             Inr (dx, np_transpose2 dwT, np_sum_axis01 dout))))))))"

section \<open>Reference formulas\<close>

text \<open>
  The formulas the layers are meant to compute, written entry by entry. They are stated
  independently of the array operations above and compared with them below.
\<close>

definition affine_tanh ::
  "real arr2 \<Rightarrow> real arr2 \<Rightarrow> real arr2 \<Rightarrow> real arr2 \<Rightarrow> real list \<Rightarrow> nat \<Rightarrow> nat \<Rightarrow> real" where
  "affine_tanh x prev_h Wx Wh b i j =
     tanh ((\<Sum>k<cols x. at2 x i k * at2 Wx k j) + (\<Sum>k<cols prev_h. at2 prev_h i k * at2 Wh k j)
           + b ! j)"

definition step_dz :: "real arr2 \<Rightarrow> real arr2 \<Rightarrow> nat \<Rightarrow> nat \<Rightarrow> real" where
  "step_dz d_next_h next_h i j = at2 d_next_h i j * (1 - (at2 next_h i j) ^ 2)"

text \<open>
  The hidden state that enters timestep \<open>t\<close> of a run: \<open>h0\<close> at timestep 0, and afterwards
  the output of the step before.
\<close>

fun prev_h_at ::
  "real arr3 \<Rightarrow> real arr2 \<Rightarrow> real arr2 \<Rightarrow> real arr2 \<Rightarrow> real list \<Rightarrow> nat \<Rightarrow> error + real arr2" where
  "prev_h_at x h0 Wx Wh b 0 = Inr h0"
| "prev_h_at x h0 Wx Wh b (Suc t) =
     ebind (prev_h_at x h0 Wx Wh b t) (\<lambda>p.
     ebind (slice_t x t) (\<lambda>xt.
     ebind (rnn_step_forward xt p Wx Wh b) (\<lambda>(h, c). Inr h)))"

text \<open>The shapes of a step cache of a run with batch size \<open>N\<close>, input size \<open>D\<close>, hidden size \<open>H\<close>.\<close>

definition cache_ok :: "nat \<Rightarrow> nat \<Rightarrow> nat \<Rightarrow> step_cache \<Rightarrow> bool" where
  "cache_ok N D H c =
     (rows (c_x c) = N \<and> cols (c_x c) = D \<and> rows (c_prev_h c) = N \<and> cols (c_prev_h c) = H
      \<and> rows (c_next_h c) = N \<and> cols (c_next_h c) = H \<and> wf2 (c_next_h c)
      \<and> rows (c_Wx c) = D \<and> cols (c_Wx c) = H \<and> rows (c_Wh c) = H \<and> cols (c_Wh c) = H)"

text \<open>
  Backpropagation through time, as a recurrence: \<open>bptt_step dh cache t k\<close> is the backward
  step of timestep \<open>t\<close> when \<open>k\<close> timesteps follow it. The last timestep receives
  \<open>dh[:,t,:]\<close> alone; an earlier one receives \<open>dh[:,t,:]\<close> plus the \<open>dprev_h\<close> of the
  backward step of timestep \<open>t+1\<close>.
\<close>

type_synonym step_grads = "real arr2 \<times> real arr2 \<times> real arr2 \<times> real arr2 \<times> real list"

definition g_dx :: "step_grads \<Rightarrow> real arr2" where
  "g_dx g = (case g of (dx, dprev_h, dWx, dWh, db) \<Rightarrow> dx)"

definition g_dprev_h :: "step_grads \<Rightarrow> real arr2" where
  "g_dprev_h g = (case g of (dx, dprev_h, dWx, dWh, db) \<Rightarrow> dprev_h)"

definition g_dWx :: "step_grads \<Rightarrow> real arr2" where
  "g_dWx g = (case g of (dx, dprev_h, dWx, dWh, db) \<Rightarrow> dWx)"

definition g_dWh :: "step_grads \<Rightarrow> real arr2" where
  "g_dWh g = (case g of (dx, dprev_h, dWx, dWh, db) \<Rightarrow> dWh)"

definition g_db :: "step_grads \<Rightarrow> real list" where
  "g_db g = (case g of (dx, dprev_h, dWx, dWh, db) \<Rightarrow> db)"

fun bptt_step :: "real arr3 \<Rightarrow> step_cache list \<Rightarrow> nat \<Rightarrow> nat \<Rightarrow> error + step_grads" where
  "bptt_step dh cache t 0 =
     ebind (slice_t dh t) (\<lambda>g. rnn_step_backward g (cache ! t))"
| "bptt_step dh cache t (Suc k) =
     ebind (bptt_step dh cache (Suc t) k) (\<lambda>later.
     ebind (slice_t dh t) (\<lambda>g.
     ebind (np_add2 g (g_dprev_h later)) (\<lambda>g'. rnn_step_backward g' (cache ! t))))"

text \<open>The shapes of the gradients of one step.\<close>

definition grads_ok :: "nat \<Rightarrow> nat \<Rightarrow> nat \<Rightarrow> step_grads \<Rightarrow> bool" where
  "grads_ok N D H g =
     (rows (g_dx g) = N \<and> cols (g_dx g) = D \<and> rows (g_dprev_h g) = N \<and> cols (g_dprev_h g) = H
      \<and> rows (g_dWx g) = D \<and> cols (g_dWx g) = H \<and> rows (g_dWh g) = H \<and> cols (g_dWh g) = H
      \<and> length (g_db g) = H)"

text \<open>The number of valid timesteps of sample \<open>i\<close>, and its masked sum over time.\<close>

definition mask_count :: "real arr2 \<Rightarrow> nat \<Rightarrow> real" where
  "mask_count msk i = (\<Sum>t<cols msk. at2 msk i t)"

definition masked_sum :: "real arr3 \<Rightarrow> real arr2 \<Rightarrow> nat \<Rightarrow> nat \<Rightarrow> real" where
  "masked_sum hi msk i j = (\<Sum>t<dim1 hi. at2 msk i t * at3 hi i t j)"

text \<open>Row \<open>i\<close> of the masked average: the masked sum divided by the count, entry by entry.\<close>

definition avg_row :: "real arr3 \<Rightarrow> real arr2 \<Rightarrow> nat \<Rightarrow> npfloat list" where
  "avg_row hi msk i =
     map (\<lambda>j. np_true_divide (masked_sum hi msk i j) (mask_count msk i)) [0..<dim2 hi]"

text \<open>The gradient that sample \<open>i\<close> receives at timestep \<open>j\<close>, entry by entry.\<close>

definition dh_row :: "real arr2 \<Rightarrow> avg_cache \<Rightarrow> nat \<Rightarrow> nat \<Rightarrow> npfloat list" where
  "dh_row dho cache i j =
     map (\<lambda>k. np_true_divide (at2 dho i k * at2 (ac_mask cache) i j) (ac_count cache ! i))
       [0..<cols dho]"

section \<open>Facts about tables\<close>

lemma length_tab2 [simp]: "length (tab2 n m f) = n * m"
  by (induction n) (simp_all add: tab2_def)

lemma nth_tab2 [simp]:
  assumes "i < n" "j < m"
  shows "tab2 n m f ! (i * m + j) = f i j"
  using assms
proof (induction n)
  case 0
  then show ?case by simp
next
  case (Suc n)
  have split: "tab2 (Suc n) m f = tab2 n m f @ map (f n) [0..<m]"
    by (simp add: tab2_def)
  show ?case
  proof (cases "i < n")
    case True
    then have "Suc i \<le> n" by simp
    then have "Suc i * m \<le> n * m" by (rule mult_le_mono1)
    with Suc.prems(2) have "i * m + j < n * m" by simp
    with True Suc show ?thesis
      by (simp add: split nth_append)
  next
    case False
    with Suc.prems have "i = n" by simp
    with Suc.prems show ?thesis
      by (simp add: split nth_append)
  qed
qed

lemma flat_index_less:
  fixes i j n m :: nat
  assumes "i < n" "j < m"
  shows "i * m + j < n * m"
proof -
  from assms(1) have "Suc i * m \<le> n * m"
    by (intro mult_le_mono1) simp
  with assms(2) show ?thesis by simp
qed

lemma rows_mk2 [simp]: "rows (mk2 n m f) = n"
  and cols_mk2 [simp]: "cols (mk2 n m f) = m"
  and wf2_mk2 [simp]: "wf2 (mk2 n m f)"
  by (simp_all add: mk2_def wf2_def)

lemma at2_mk2 [simp]: "i < n \<Longrightarrow> j < m \<Longrightarrow> at2 (mk2 n m f) i j = f i j"
  by (simp add: mk2_def at2_def)

lemma dims_mk3 [simp]:
  "dim0 (mk3 n m l f) = n" "dim1 (mk3 n m l f) = m" "dim2 (mk3 n m l f) = l"
  "wf3 (mk3 n m l f)"
  by (simp_all add: mk3_def wf3_def)

lemma at3_mk3 [simp]:
  assumes "i < n" "t < m" "k < l"
  shows "at3 (mk3 n m l f) i t k = f i t k"
proof -
  have "i * m + t < n * m"
    using assms(1,2) by (rule flat_index_less)
  then show ?thesis
    using assms by (simp add: mk3_def at3_def)
qed

lemma arr2_eqI:
  assumes "rows a = rows b" "cols a = cols b" "wf2 a" "wf2 b"
    and "\<And>i j. i < rows a \<Longrightarrow> j < cols a \<Longrightarrow> at2 a i j = at2 b i j"
  shows "(a :: 'a arr2) = b"
proof -
  have len: "length (buf2 a) = length (buf2 b)"
    using assms(1-4) by (simp add: wf2_def)
  have "buf2 a ! p = buf2 b ! p" if "p < length (buf2 a)" for p
  proof (cases "cols a = 0")
    case True
    with that assms(3) show ?thesis by (simp add: wf2_def)
  next
    case False
    from that assms(3) have p: "p < rows a * cols a" by (simp add: wf2_def)
    have "p div cols a < rows a"
      using p False by (simp add: less_mult_imp_div_less)
    moreover have "p mod cols a < cols a"
      using False by simp
    ultimately have "at2 a (p div cols a) (p mod cols a) = at2 b (p div cols a) (p mod cols a)"
      by (rule assms(5))
    then show ?thesis
      using assms(2) by (simp add: at2_def)
  qed
  with len have "buf2 a = buf2 b"
    by (simp add: list_eq_iff_nth_eq)
  with assms(1,2) show ?thesis by simp
qed

lemma sum_list_upt: "sum_list (map f [0..<n]) = (\<Sum>k<n. (f k :: real))"
  by (simp add: interv_sum_list_conv_sum_set_nat atLeast0LessThan)

lemma bidx_less [simp]: "i < m \<Longrightarrow> bidx m i = i"
  by (simp add: bidx_def)

lemma bdim_same [simp]: "bdim m m = Some m"
  by (simp add: bdim_def)

lemma ebind_Inr [simp]: "ebind (Inr v) f = f v"
  and ebind_Inl [simp]: "ebind (Inl e) f = Inl e"
  by (simp_all add: ebind_def)

lemma mk2_cong:
  assumes "\<And>i j. i < n \<Longrightarrow> j < m \<Longrightarrow> f i j = g i j"
  shows "mk2 n m f = mk2 n m g"
  by (rule arr2_eqI) (simp_all add: assms)

lemma np_binop2_eq:
  assumes "rows a = rows b" "cols a = cols b"
  shows "np_binop2 f a b = Inr (mk2 (rows a) (cols a) (\<lambda>i j. f (at2 a i j) (at2 b i j)))"
proof -
  have "mk2 (rows a) (cols a)
          (\<lambda>i j. f (at2 a (bidx (rows a) i) (bidx (cols a) j))
                   (at2 b (bidx (rows b) i) (bidx (cols b) j))) =
        mk2 (rows a) (cols a) (\<lambda>i j. f (at2 a i j) (at2 b i j))"
    by (rule mk2_cong) (simp add: assms[symmetric])
  then show ?thesis
    using assms by (simp add: np_binop2_def)
qed

lemma np_add21_eq:
  assumes "cols a = length v"
  shows "np_add21 a v = Inr (mk2 (rows a) (cols a) (\<lambda>i j. at2 a i j + v ! j))"
proof -
  have b1: "bdim (rows a) (Suc 0) = Some (rows a)"
    by (simp add: bdim_def)
  have "mk2 (rows a) (cols a)
          (\<lambda>i j. at2 a (bidx (rows a) i) (bidx (cols a) j) +
                   at2 (as_row v) (bidx (rows (as_row v)) i) (bidx (cols (as_row v)) j)) =
        mk2 (rows a) (cols a) (\<lambda>i j. at2 a i j + v ! j)"
  proof (rule mk2_cong)
    fix i j assume ij: "i < rows a" "j < cols a"
    then have "bidx (length v) j = j"
      using assms by simp
    then have "at2 (as_row v) (bidx (rows (as_row v)) i) (bidx (cols (as_row v)) j) = v ! j"
      by (simp add: as_row_def at2_def bidx_def)
    with ij show "at2 a (bidx (rows a) i) (bidx (cols a) j) +
        at2 (as_row v) (bidx (rows (as_row v)) i) (bidx (cols (as_row v)) j) = at2 a i j + v ! j"
      by simp
  qed
  moreover have "rows (as_row v) = Suc 0" "cols (as_row v) = length v"
    by (simp_all add: as_row_def)
  ultimately show ?thesis
    using assms by (simp add: np_add21_def np_add2_def np_binop2_def b1)
qed

lemma np_dot_eq:
  assumes "cols a = rows b"
  shows "np_dot a b = Inr (mk2 (rows a) (cols b) (\<lambda>i j. \<Sum>k<cols a. at2 a i k * at2 b k j))"
  using assms by (simp add: np_dot_def sum_list_upt)

lemma shape_np_map2 [simp]: "rows (np_map2 f a) = rows a" "cols (np_map2 f a) = cols a"
  by (simp_all add: np_map2_def)

lemma wf2_np_map2 [simp]: "wf2 (np_map2 f a) = wf2 a"
  by (simp add: np_map2_def wf2_def)

lemma at2_np_map2:
  assumes "wf2 a" "i < rows a" "j < cols a"
  shows "at2 (np_map2 f a) i j = f (at2 a i j)"
proof -
  have "i * cols a + j < length (buf2 a)"
    using assms flat_index_less[of i "rows a" j "cols a"] by (simp add: wf2_def)
  then show ?thesis
    by (simp add: np_map2_def at2_def)
qed

lemma np_map2_eq:
  assumes "wf2 a"
  shows "np_map2 f a = mk2 (rows a) (cols a) (\<lambda>i j. f (at2 a i j))"
  by (rule arr2_eqI) (simp_all add: assms at2_np_map2)

lemma shape_np_transpose2 [simp]:
  "rows (np_transpose2 a) = cols a" "cols (np_transpose2 a) = rows a" "wf2 (np_transpose2 a)"
  by (simp_all add: np_transpose2_def)

lemma at2_np_transpose2 [simp]:
  "i < cols a \<Longrightarrow> j < rows a \<Longrightarrow> at2 (np_transpose2 a) i j = at2 a j i"
  by (simp add: np_transpose2_def)

section \<open>StepCell: forward and backward\<close>

lemma step_forward_ok:
  assumes "rows x = N" "cols x = D" "rows prev_h = N" "cols prev_h = H"
    and "rows Wx = D" "cols Wx = H" "rows Wh = H" "cols Wh = H" "length b = H"
  obtains next_h where
    "rnn_step_forward x prev_h Wx Wh b =
       Inr (next_h, \<lparr>c_x = x, c_prev_h = prev_h, c_next_h = next_h, c_Wh = Wh, c_Wx = Wx\<rparr>)"
    "rows next_h = N" "cols next_h = H" "wf2 next_h"
    "\<And>i j. i < N \<Longrightarrow> j < H \<Longrightarrow> at2 next_h i j = affine_tanh x prev_h Wx Wh b i j"
proof -
  define xw where "xw = mk2 N H (\<lambda>i j. \<Sum>k<cols x. at2 x i k * at2 Wx k j)"
  define hw where "hw = mk2 N H (\<lambda>i j. \<Sum>k<cols prev_h. at2 prev_h i k * at2 Wh k j)"
  define s where "s = mk2 N H (\<lambda>i j. at2 xw i j + at2 hw i j)"
  define z where "z = mk2 N H (\<lambda>i j. at2 s i j + b ! j)"
  have e1: "np_dot x Wx = Inr xw"
    using assms by (simp add: np_dot_eq xw_def)
  have e2: "np_dot prev_h Wh = Inr hw"
    using assms by (simp add: np_dot_eq hw_def)
  have e3: "np_add2 xw hw = Inr s"
    by (simp add: np_add2_def np_binop2_eq xw_def hw_def s_def)
  have e4: "np_add21 s b = Inr z"
    using assms(9) by (simp add: np_add21_eq s_def z_def)
  let ?nh = "np_map2 tanh z"
  show thesis
  proof (rule that[of ?nh])
    show "rnn_step_forward x prev_h Wx Wh b =
       Inr (?nh, \<lparr>c_x = x, c_prev_h = prev_h, c_next_h = ?nh, c_Wh = Wh, c_Wx = Wx\<rparr>)"
      by (simp add: rnn_step_forward_def e1 e2 e3 e4 Let_def)
    show "rows ?nh = N" "cols ?nh = H" "wf2 ?nh"
      by (simp_all add: z_def)
    show "at2 ?nh i j = affine_tanh x prev_h Wx Wh b i j" if "i < N" "j < H" for i j
    proof -
      have "at2 ?nh i j = tanh (at2 z i j)"
        using that by (simp add: at2_np_map2 z_def)
      also have "at2 z i j = at2 xw i j + at2 hw i j + b ! j"
        using that by (simp add: z_def s_def)
      finally show ?thesis
        using that by (simp add: affine_tanh_def xw_def hw_def)
    qed
  qed
qed

text \<open>
  C3. For \<open>x_t\<close> of shape \<open>(N,D)\<close>, \<open>prev_h\<close> of shape \<open>(N,H)\<close>, \<open>Wx\<close> of shape \<open>(D,H)\<close>,
  \<open>Wh\<close> of shape \<open>(H,H)\<close> and \<open>b\<close> of shape \<open>(H,)\<close>, \<open>rnn_step_forward\<close> returns
  \<open>next_h = tanh(x_t\<cdot>Wx + prev_h\<cdot>Wh + b)\<close>, of shape \<open>(N,H)\<close>, with \<open>b\<close> added to every row,
  and a cache that holds \<open>x_t\<close>, \<open>prev_h\<close>, \<open>next_h\<close>, \<open>Wx\<close> and \<open>Wh\<close>.
\<close>

theorem rnn_step_forward_affine_tanh:
  assumes "rows x = N" "cols x = D" "rows prev_h = N" "cols prev_h = H"
    and "rows Wx = D" "cols Wx = H" "rows Wh = H" "cols Wh = H" "length b = H"
  shows "\<exists>next_h.
    rnn_step_forward x prev_h Wx Wh b =
      Inr (next_h, \<lparr>c_x = x, c_prev_h = prev_h, c_next_h = next_h, c_Wh = Wh, c_Wx = Wx\<rparr>)
    \<and> rows next_h = N \<and> cols next_h = H \<and> wf2 next_h
    \<and> (\<forall>i<N. \<forall>j<H. at2 next_h i j =
          tanh ((\<Sum>k<D. at2 x i k * at2 Wx k j) + (\<Sum>k<H. at2 prev_h i k * at2 Wh k j) + b ! j))"
proof -
  obtain next_h where nh:
    "rnn_step_forward x prev_h Wx Wh b =
       Inr (next_h, \<lparr>c_x = x, c_prev_h = prev_h, c_next_h = next_h, c_Wh = Wh, c_Wx = Wx\<rparr>)"
    "rows next_h = N" "cols next_h = H" "wf2 next_h"
    "\<And>i j. i < N \<Longrightarrow> j < H \<Longrightarrow> at2 next_h i j = affine_tanh x prev_h Wx Wh b i j"
    using step_forward_ok[OF assms] by blast
  have "\<forall>i<N. \<forall>j<H. at2 next_h i j =
          tanh ((\<Sum>k<D. at2 x i k * at2 Wx k j) + (\<Sum>k<H. at2 prev_h i k * at2 Wh k j) + b ! j)"
    using nh(5) assms(2,4) by (simp add: affine_tanh_def)
  with nh(1-4) show ?thesis by blast
qed

theorem rnn_step_forward_affine_tanh_witness:
  "\<exists>next_h.
     rnn_step_forward \<lparr>rows = 1, cols = 1, buf2 = [2]\<rparr> \<lparr>rows = 1, cols = 1, buf2 = [3]\<rparr>
       \<lparr>rows = 1, cols = 1, buf2 = [5]\<rparr> \<lparr>rows = 1, cols = 1, buf2 = [7]\<rparr> [11] =
       Inr (next_h, \<lparr>c_x = \<lparr>rows = 1, cols = 1, buf2 = [2]\<rparr>,
                     c_prev_h = \<lparr>rows = 1, cols = 1, buf2 = [3]\<rparr>, c_next_h = next_h,
                     c_Wh = \<lparr>rows = 1, cols = 1, buf2 = [7]\<rparr>,
                     c_Wx = \<lparr>rows = 1, cols = 1, buf2 = [5]\<rparr>\<rparr>)
     \<and> rows next_h = 1 \<and> cols next_h = 1 \<and> at2 next_h 0 0 = tanh 42"
  using rnn_step_forward_affine_tanh
    [of "\<lparr>rows = 1, cols = 1, buf2 = [2]\<rparr>" 1 1 "\<lparr>rows = 1, cols = 1, buf2 = [3]\<rparr>" 1
        "\<lparr>rows = 1, cols = 1, buf2 = [5]\<rparr>" "\<lparr>rows = 1, cols = 1, buf2 = [7]\<rparr>" "[11]"]
  by (fastforce simp add: at2_def)

lemma length_np_sum_axis0 [simp]: "length (np_sum_axis0 a) = cols a"
  by (simp add: np_sum_axis0_def)

lemma nth_np_sum_axis0 [simp]:
  "j < cols a \<Longrightarrow> np_sum_axis0 a ! j = (\<Sum>i<rows a. at2 a i j)"
  by (simp add: np_sum_axis0_def sum_list_upt)

lemma step_backward_ok:
  assumes c: "rows (c_x c) = N" "cols (c_x c) = D" "rows (c_prev_h c) = N" "cols (c_prev_h c) = H"
      "rows (c_next_h c) = N" "cols (c_next_h c) = H" "wf2 (c_next_h c)"
      "rows (c_Wx c) = D" "cols (c_Wx c) = H" "rows (c_Wh c) = H" "cols (c_Wh c) = H"
    and d: "rows dnext_h = N" "cols dnext_h = H"
  obtains dx dprev_h dWx dWh db where
    "rnn_step_backward dnext_h c = Inr (dx, dprev_h, dWx, dWh, db)"
    "rows dx = N" "cols dx = D" "wf2 dx"
    "rows dprev_h = N" "cols dprev_h = H" "wf2 dprev_h"
    "rows dWx = D" "cols dWx = H" "wf2 dWx"
    "rows dWh = H" "cols dWh = H" "wf2 dWh"
    "length db = H"
    "\<And>i k. i < N \<Longrightarrow> k < D \<Longrightarrow>
       at2 dx i k = (\<Sum>j<H. step_dz dnext_h (c_next_h c) i j * at2 (c_Wx c) k j)"
    "\<And>i k. i < N \<Longrightarrow> k < H \<Longrightarrow>
       at2 dprev_h i k = (\<Sum>j<H. step_dz dnext_h (c_next_h c) i j * at2 (c_Wh c) k j)"
    "\<And>k j. k < D \<Longrightarrow> j < H \<Longrightarrow>
       at2 dWx k j = (\<Sum>i<N. at2 (c_x c) i k * step_dz dnext_h (c_next_h c) i j)"
    "\<And>k j. k < H \<Longrightarrow> j < H \<Longrightarrow>
       at2 dWh k j = (\<Sum>i<N. at2 (c_prev_h c) i k * step_dz dnext_h (c_next_h c) i j)"
    "\<And>j. j < H \<Longrightarrow> db ! j = (\<Sum>i<N. step_dz dnext_h (c_next_h c) i j)"
proof -
  let ?g = "np_map2 (\<lambda>v. 1 - v ^ 2) (c_next_h c)"
  define dz where "dz = mk2 N H (\<lambda>i j. at2 dnext_h i j * at2 ?g i j)"
  have dz_shape: "rows dz = N" "cols dz = H"
    by (simp_all add: dz_def)
  have dz_at: "at2 dz i j = step_dz dnext_h (c_next_h c) i j" if "i < N" "j < H" for i j
    using that c by (simp add: dz_def at2_np_map2 step_dz_def)
  define dWh where
    "dWh = mk2 H H (\<lambda>k j. \<Sum>i<N. at2 (np_transpose2 (c_prev_h c)) k i * at2 dz i j)"
  define dWx where
    "dWx = mk2 D H (\<lambda>k j. \<Sum>i<N. at2 (np_transpose2 (c_x c)) k i * at2 dz i j)"
  define dx where
    "dx = mk2 N D (\<lambda>i k. \<Sum>j<H. at2 dz i j * at2 (np_transpose2 (c_Wx c)) j k)"
  define dp where
    "dp = mk2 N H (\<lambda>i k. \<Sum>j<H. at2 dz i j * at2 (np_transpose2 (c_Wh c)) j k)"
  have e0: "np_mul2 dnext_h ?g = Inr dz"
    using c d by (simp add: np_mul2_def np_binop2_eq dz_def)
  have e1: "np_dot (np_transpose2 (c_prev_h c)) dz = Inr dWh"
    using c by (simp add: np_dot_eq dWh_def dz_shape)
  have e2: "np_dot (np_transpose2 (c_x c)) dz = Inr dWx"
    using c by (simp add: np_dot_eq dWx_def dz_shape)
  have e3: "np_dot dz (np_transpose2 (c_Wx c)) = Inr dx"
    using c by (simp add: np_dot_eq dx_def dz_shape)
  have e4: "np_dot dz (np_transpose2 (c_Wh c)) = Inr dp"
    using c by (simp add: np_dot_eq dp_def dz_shape)
  show thesis
  proof (rule that[of dx dp dWx dWh "np_sum_axis0 dz"])
    show "rnn_step_backward dnext_h c = Inr (dx, dp, dWx, dWh, np_sum_axis0 dz)"
      by (simp add: rnn_step_backward_def Let_def e0 e1 e2 e3 e4)
    show "rows dx = N" "cols dx = D" "wf2 dx" "rows dp = N" "cols dp = H" "wf2 dp"
      "rows dWx = D" "cols dWx = H" "wf2 dWx" "rows dWh = H" "cols dWh = H" "wf2 dWh"
      by (simp_all add: dx_def dp_def dWx_def dWh_def)
    show "length (np_sum_axis0 dz) = H"
      by (simp add: dz_shape)
    show "at2 dx i k = (\<Sum>j<H. step_dz dnext_h (c_next_h c) i j * at2 (c_Wx c) k j)"
      if "i < N" "k < D" for i k
    proof -
      have "at2 dx i k = (\<Sum>j<H. at2 dz i j * at2 (np_transpose2 (c_Wx c)) j k)"
        using that by (simp add: dx_def)
      also have "\<dots> = (\<Sum>j<H. step_dz dnext_h (c_next_h c) i j * at2 (c_Wx c) k j)"
        using that c by (intro sum.cong) (simp_all add: dz_at)
      finally show ?thesis .
    qed
    show "at2 dp i k = (\<Sum>j<H. step_dz dnext_h (c_next_h c) i j * at2 (c_Wh c) k j)"
      if "i < N" "k < H" for i k
    proof -
      have "at2 dp i k = (\<Sum>j<H. at2 dz i j * at2 (np_transpose2 (c_Wh c)) j k)"
        using that by (simp add: dp_def)
      also have "\<dots> = (\<Sum>j<H. step_dz dnext_h (c_next_h c) i j * at2 (c_Wh c) k j)"
        using that c by (intro sum.cong) (simp_all add: dz_at)
      finally show ?thesis .
    qed
    show "at2 dWx k j = (\<Sum>i<N. at2 (c_x c) i k * step_dz dnext_h (c_next_h c) i j)"
      if "k < D" "j < H" for k j
    proof -
      have "at2 dWx k j = (\<Sum>i<N. at2 (np_transpose2 (c_x c)) k i * at2 dz i j)"
        using that by (simp add: dWx_def)
      also have "\<dots> = (\<Sum>i<N. at2 (c_x c) i k * step_dz dnext_h (c_next_h c) i j)"
        using that c by (intro sum.cong) (simp_all add: dz_at)
      finally show ?thesis .
    qed
    show "at2 dWh k j = (\<Sum>i<N. at2 (c_prev_h c) i k * step_dz dnext_h (c_next_h c) i j)"
      if "k < H" "j < H" for k j
    proof -
      have "at2 dWh k j = (\<Sum>i<N. at2 (np_transpose2 (c_prev_h c)) k i * at2 dz i j)"
        using that by (simp add: dWh_def)
      also have "\<dots> = (\<Sum>i<N. at2 (c_prev_h c) i k * step_dz dnext_h (c_next_h c) i j)"
        using that c by (intro sum.cong) (simp_all add: dz_at)
      finally show ?thesis .
    qed
    show "np_sum_axis0 dz ! j = (\<Sum>i<N. step_dz dnext_h (c_next_h c) i j)" if "j < H" for j
    proof -
      have "np_sum_axis0 dz ! j = (\<Sum>i<N. at2 dz i j)"
        using that by (simp add: dz_shape)
      also have "\<dots> = (\<Sum>i<N. step_dz dnext_h (c_next_h c) i j)"
        using that by (intro sum.cong) (simp_all add: dz_at)
      finally show ?thesis .
    qed
  qed
qed

text \<open>
  C2. For \<open>d_next_h\<close> of shape \<open>(N,H)\<close> and the cache of the matching \<open>rnn_step_forward\<close>
  call, \<open>rnn_step_backward\<close> returns, with \<open>dz = d_next_h * (1 - next_h^2)\<close> entry by entry:
  \<open>dx = dz\<cdot>Wx\<^sup>T\<close>, \<open>dprev_h = dz\<cdot>Wh\<^sup>T\<close>, \<open>dWx = x\<^sup>T\<cdot>dz\<close>, \<open>dWh = prev_h\<^sup>T\<cdot>dz\<close> and \<open>db\<close> the
  sum of \<open>dz\<close> over the batch axis.
\<close>

theorem rnn_step_backward_gradients:
  assumes "rows x = N" "cols x = D" "rows prev_h = N" "cols prev_h = H"
    and "rows Wx = D" "cols Wx = H" "rows Wh = H" "cols Wh = H" "length b = H"
    and "rnn_step_forward x prev_h Wx Wh b = Inr (next_h, cache)"
    and "rows d_next_h = N" "cols d_next_h = H"
  shows "\<exists>dx dprev_h dWx dWh db.
    rnn_step_backward d_next_h cache = Inr (dx, dprev_h, dWx, dWh, db)
    \<and> rows dx = N \<and> cols dx = D \<and> rows dprev_h = N \<and> cols dprev_h = H
    \<and> rows dWx = D \<and> cols dWx = H \<and> rows dWh = H \<and> cols dWh = H \<and> length db = H
    \<and> (\<forall>i<N. \<forall>k<D. at2 dx i k = (\<Sum>j<H. step_dz d_next_h next_h i j * at2 Wx k j))
    \<and> (\<forall>i<N. \<forall>k<H. at2 dprev_h i k = (\<Sum>j<H. step_dz d_next_h next_h i j * at2 Wh k j))
    \<and> (\<forall>k<D. \<forall>j<H. at2 dWx k j = (\<Sum>i<N. at2 x i k * step_dz d_next_h next_h i j))
    \<and> (\<forall>k<H. \<forall>j<H. at2 dWh k j = (\<Sum>i<N. at2 prev_h i k * step_dz d_next_h next_h i j))
    \<and> (\<forall>j<H. db ! j = (\<Sum>i<N. step_dz d_next_h next_h i j))"
proof (rule step_forward_ok[OF assms(1-9)])
  fix nh
  assume nh: "rnn_step_forward x prev_h Wx Wh b =
       Inr (nh, \<lparr>c_x = x, c_prev_h = prev_h, c_next_h = nh, c_Wh = Wh, c_Wx = Wx\<rparr>)"
    "rows nh = N" "cols nh = H" "wf2 nh"
  from nh(1) assms(10) have eq: "next_h = nh"
    "cache = \<lparr>c_x = x, c_prev_h = prev_h, c_next_h = nh, c_Wh = Wh, c_Wx = Wx\<rparr>"
    by simp_all
  have c: "rows (c_x cache) = N" "cols (c_x cache) = D"
    "rows (c_prev_h cache) = N" "cols (c_prev_h cache) = H"
    "rows (c_next_h cache) = N" "cols (c_next_h cache) = H" "wf2 (c_next_h cache)"
    "rows (c_Wx cache) = D" "cols (c_Wx cache) = H"
    "rows (c_Wh cache) = H" "cols (c_Wh cache) = H"
    using assms(1-8) nh(2-4) by (simp_all add: eq(2))
  have f: "c_x cache = x" "c_prev_h cache = prev_h" "c_next_h cache = next_h"
    "c_Wx cache = Wx" "c_Wh cache = Wh"
    by (simp_all add: eq)
  show ?thesis
    by (rule step_backward_ok[OF c assms(11,12)], unfold f, intro exI conjI allI impI)
      (assumption | blast)+
qed


lemmas np_eval = np_dot_def np_add2_def np_add21_def np_mul2_def np_binop2_def bdim_def bidx_def
  as_row_def mk2_def tab2_def at2_def np_map2_def np_transpose2_def np_sum_axis0_def ebind_def

theorem rnn_step_backward_gradients_witness:
  "\<exists>dx dprev_h dWx dWh db.
     rnn_step_backward \<lparr>rows = 1, cols = 1, buf2 = [2]\<rparr>
       \<lparr>c_x = \<lparr>rows = 1, cols = 1, buf2 = [3]\<rparr>, c_prev_h = \<lparr>rows = 1, cols = 1, buf2 = [0]\<rparr>,
        c_next_h = \<lparr>rows = 1, cols = 1, buf2 = [0]\<rparr>, c_Wh = \<lparr>rows = 1, cols = 1, buf2 = [5]\<rparr>,
        c_Wx = \<lparr>rows = 1, cols = 1, buf2 = [0]\<rparr>\<rparr> = Inr (dx, dprev_h, dWx, dWh, db)
     \<and> at2 dx 0 0 = 0 \<and> at2 dprev_h 0 0 = 10 \<and> at2 dWx 0 0 = 6 \<and> at2 dWh 0 0 = 0 \<and> db ! 0 = 2"
proof -
  have fw: "rnn_step_forward \<lparr>rows = 1, cols = 1, buf2 = [3]\<rparr> \<lparr>rows = 1, cols = 1, buf2 = [0]\<rparr>
      \<lparr>rows = 1, cols = 1, buf2 = [0]\<rparr> \<lparr>rows = 1, cols = 1, buf2 = [5]\<rparr> [0] =
    Inr (\<lparr>rows = 1, cols = 1, buf2 = [0]\<rparr>,
       \<lparr>c_x = \<lparr>rows = 1, cols = 1, buf2 = [3]\<rparr>, c_prev_h = \<lparr>rows = 1, cols = 1, buf2 = [0]\<rparr>,
        c_next_h = \<lparr>rows = 1, cols = 1, buf2 = [0]\<rparr>, c_Wh = \<lparr>rows = 1, cols = 1, buf2 = [5]\<rparr>,
        c_Wx = \<lparr>rows = 1, cols = 1, buf2 = [0]\<rparr>\<rparr>)"
    by (simp add: rnn_step_forward_def np_eval Let_def)
  show ?thesis
    using rnn_step_backward_gradients[OF _ _ _ _ _ _ _ _ _ fw, of 1 1 1 "\<lparr>rows = 1, cols = 1, buf2 = [2]\<rparr>"]
    by (fastforce simp add: step_dz_def at2_def)
qed

section \<open>SequenceRunner: forward\<close>

lemma slice_t_eq:
  "t < dim1 a \<Longrightarrow> slice_t a t = Inr (mk2 (dim0 a) (dim2 a) (\<lambda>i k. at3 a i t k))"
  by (simp add: slice_t_def)

lemma np_transpose_102_eq:
  assumes "hs \<noteq> []" "\<And>g. g \<in> set hs \<Longrightarrow> rows g = n \<and> cols g = m"
  shows "np_transpose_102 hs = Inr (mk3 n (length hs) m (\<lambda>i t k. at2 (hs ! t) i k))"
proof (cases hs)
  case Nil
  with assms(1) show ?thesis by simp
next
  case (Cons h rest)
  then have "rows h = n" "cols h = m"
    using assms(2)[of h] by simp_all
  moreover have "\<forall>g\<in>set hs. rows g = n \<and> cols g = m"
    using assms(2) by blast
  ultimately show ?thesis
    using Cons by (simp add: np_transpose_102_def)
qed

lemma rnn_forward_loop_append:
  "rnn_forward_loop x Wx Wh b (ts1 @ ts2) st =
     ebind (rnn_forward_loop x Wx Wh b ts1 st) (rnn_forward_loop x Wx Wh b ts2)"
proof (induction ts1 arbitrary: st)
  case Nil
  show ?case by simp
next
  case (Cons t ts1)
  obtain p hs cs where st: "st = (p, hs, cs)"
    by (cases st) auto
  show ?case
    by (simp add: st Cons.IH ebind_def split: sum.splits prod.splits)
qed

lemma forward_loop_inv:
  assumes "dim0 x = N" "dim2 x = D" "rows h0 = N" "cols h0 = H"
    and "rows Wx = D" "cols Wx = H" "rows Wh = H" "cols Wh = H" "length b = H"
    and "T' \<le> dim1 x"
  shows "\<exists>p hs cs.
    rnn_forward_loop x Wx Wh b [0..<T'] (h0, [], []) = Inr (p, hs, cs)
    \<and> length hs = T' \<and> length cs = T'
    \<and> prev_h_at x h0 Wx Wh b T' = Inr p \<and> rows p = N \<and> cols p = H
    \<and> (\<forall>t<T'. \<exists>xt q. slice_t x t = Inr xt \<and> prev_h_at x h0 Wx Wh b t = Inr q
           \<and> rnn_step_forward xt q Wx Wh b = Inr (hs ! t, cs ! t)
           \<and> rows (hs ! t) = N \<and> cols (hs ! t) = H \<and> cache_ok N D H (cs ! t))"
  using assms(10)
proof (induction T')
  case 0
  show ?case using assms(3,4) by simp
next
  case (Suc T')
  then have lt: "T' < dim1 x" by simp
  from Suc obtain p hs cs where ih:
    "rnn_forward_loop x Wx Wh b [0..<T'] (h0, [], []) = Inr (p, hs, cs)"
    "length hs = T'" "length cs = T'"
    "prev_h_at x h0 Wx Wh b T' = Inr p" "rows p = N" "cols p = H"
    "\<forall>t<T'. \<exists>xt q. slice_t x t = Inr xt \<and> prev_h_at x h0 Wx Wh b t = Inr q
           \<and> rnn_step_forward xt q Wx Wh b = Inr (hs ! t, cs ! t)
           \<and> rows (hs ! t) = N \<and> cols (hs ! t) = H \<and> cache_ok N D H (cs ! t)"
    by auto
  define xt where "xt = mk2 (dim0 x) (dim2 x) (\<lambda>i k. at3 x i T' k)"
  have sl: "slice_t x T' = Inr xt"
    using lt by (simp add: slice_t_eq xt_def)
  have xs: "rows xt = N" "cols xt = D"
    using assms(1,2) by (simp_all add: xt_def)
  show ?case
  proof (rule step_forward_ok[OF xs ih(5,6) assms(5-9)])
    fix nh
    assume nh: "rnn_step_forward xt p Wx Wh b =
       Inr (nh, \<lparr>c_x = xt, c_prev_h = p, c_next_h = nh, c_Wh = Wh, c_Wx = Wx\<rparr>)"
      "rows nh = N" "cols nh = H" "wf2 nh"
    let ?c = "\<lparr>c_x = xt, c_prev_h = p, c_next_h = nh, c_Wh = Wh, c_Wx = Wx\<rparr>"
    have ok: "cache_ok N D H ?c"
      using xs ih(5,6) nh(2-4) assms(5-8) by (simp add: cache_ok_def)
    have run: "rnn_forward_loop x Wx Wh b [0..<Suc T'] (h0, [], []) = Inr (nh, hs @ [nh], cs @ [?c])"
      by (simp add: rnn_forward_loop_append ih(1) sl nh(1))
    have nxt: "prev_h_at x h0 Wx Wh b (Suc T') = Inr nh"
      by (simp add: ih(4) sl nh(1))
    have steps: "\<exists>xt q. slice_t x t = Inr xt \<and> prev_h_at x h0 Wx Wh b t = Inr q
           \<and> rnn_step_forward xt q Wx Wh b = Inr ((hs @ [nh]) ! t, (cs @ [?c]) ! t)
           \<and> rows ((hs @ [nh]) ! t) = N \<and> cols ((hs @ [nh]) ! t) = H
           \<and> cache_ok N D H ((cs @ [?c]) ! t)" if "t < Suc T'" for t
    proof (cases "t < T'")
      case True
      with ih(2,3,7) show ?thesis
        by (simp add: nth_append)
    next
      case False
      with that have "t = T'" by simp
      with ih(2,3,4) sl nh ok show ?thesis
        by (simp add: nth_append)
    qed
    show ?thesis
      using run nxt nh(2,3) ih(2,3) steps by simp
  qed
qed

lemma rnn_forward_run:
  assumes "dim0 x = N" "dim2 x = D" "rows h0 = N" "cols h0 = H"
    and "rows Wx = D" "cols Wx = H" "rows Wh = H" "cols Wh = H" "length b = H"
    and "1 \<le> dim1 x"
  shows "\<exists>h cache.
    rnn_forward x h0 Wx Wh b = Inr (h, cache)
    \<and> dim0 h = N \<and> dim1 h = dim1 x \<and> dim2 h = H \<and> wf3 h \<and> length cache = dim1 x
    \<and> (\<forall>t<dim1 x. cache_ok N D H (cache ! t))
    \<and> (\<forall>t<dim1 x. \<exists>xt p ht. slice_t x t = Inr xt \<and> prev_h_at x h0 Wx Wh b t = Inr p
           \<and> rnn_step_forward xt p Wx Wh b = Inr (ht, cache ! t)
           \<and> (\<forall>i<N. \<forall>j<H. at3 h i t j = at2 ht i j))"
proof -
  from forward_loop_inv[OF assms(1-9) order_refl] obtain p hs cs where inv:
    "rnn_forward_loop x Wx Wh b [0..<dim1 x] (h0, [], []) = Inr (p, hs, cs)"
    "length hs = dim1 x" "length cs = dim1 x"
    "\<forall>t<dim1 x. \<exists>xt q. slice_t x t = Inr xt \<and> prev_h_at x h0 Wx Wh b t = Inr q
           \<and> rnn_step_forward xt q Wx Wh b = Inr (hs ! t, cs ! t)
           \<and> rows (hs ! t) = N \<and> cols (hs ! t) = H \<and> cache_ok N D H (cs ! t)"
    by blast
  define h where "h = mk3 N (length hs) H (\<lambda>i t k. at2 (hs ! t) i k)"
  have ne: "hs \<noteq> []"
    using inv(2) assms(10) by auto
  have shp: "rows g = N \<and> cols g = H" if "g \<in> set hs" for g
    using that inv(2,4) by (auto simp add: in_set_conv_nth)
  have tr: "np_transpose_102 hs = Inr h"
    unfolding h_def using ne shp by (rule np_transpose_102_eq)
  have run: "rnn_forward x h0 Wx Wh b = Inr (h, cs)"
    by (simp add: rnn_forward_def inv(1) tr)
  have dims: "dim0 h = N" "dim1 h = dim1 x" "dim2 h = H" "wf3 h"
    by (simp_all add: h_def inv(2))
  have ok: "\<forall>t<dim1 x. cache_ok N D H (cs ! t)"
    using inv(4) by blast
  have steps: "\<exists>xt p ht. slice_t x t = Inr xt \<and> prev_h_at x h0 Wx Wh b t = Inr p
           \<and> rnn_step_forward xt p Wx Wh b = Inr (ht, cs ! t)
           \<and> (\<forall>i<N. \<forall>j<H. at3 h i t j = at2 ht i j)" if "t < dim1 x" for t
  proof -
    from inv(4) that obtain xt q where
      "slice_t x t = Inr xt" "prev_h_at x h0 Wx Wh b t = Inr q"
      "rnn_step_forward xt q Wx Wh b = Inr (hs ! t, cs ! t)"
      by blast
    moreover have "\<forall>i<N. \<forall>j<H. at3 h i t j = at2 (hs ! t) i j"
      using that by (simp add: h_def inv(2))
    ultimately show ?thesis by blast
  qed
  show ?thesis
    using run dims inv(3) ok steps by blast
qed

text \<open>
  C4. For \<open>x\<close> of shape \<open>(N,T,D)\<close> with \<open>T \<ge> 1\<close>, \<open>h0\<close> of shape \<open>(N,H)\<close> and weights of
  shapes \<open>(D,H)\<close>, \<open>(H,H)\<close>, \<open>(H,)\<close>, \<open>rnn_forward\<close> returns \<open>h\<close> of shape \<open>(N,T,H)\<close> and a
  cache list of length \<open>T\<close>. For every timestep \<open>t\<close>, the step run on \<open>x[:,t,:]\<close> and on the
  hidden state entering timestep \<open>t\<close> (\<open>h0\<close> at timestep 0, the output of step \<open>t-1\<close>
  afterwards) returns the slice \<open>h[:,t,:]\<close> and the cache entry of index \<open>t\<close>.
\<close>

theorem rnn_forward_steps_in_order:
  assumes "dim0 x = N" "dim1 x = T" "dim2 x = D" "rows h0 = N" "cols h0 = H"
    and "rows Wx = D" "cols Wx = H" "rows Wh = H" "cols Wh = H" "length b = H"
    and "1 \<le> T"
  shows "\<exists>h cache.
    rnn_forward x h0 Wx Wh b = Inr (h, cache)
    \<and> dim0 h = N \<and> dim1 h = T \<and> dim2 h = H \<and> wf3 h \<and> length cache = T
    \<and> (\<forall>t<T. \<exists>xt p ht. slice_t x t = Inr xt \<and> prev_h_at x h0 Wx Wh b t = Inr p
           \<and> rnn_step_forward xt p Wx Wh b = Inr (ht, cache ! t)
           \<and> prev_h_at x h0 Wx Wh b (Suc t) = Inr ht
           \<and> (\<forall>i<N. \<forall>j<H. at3 h i t j = at2 ht i j))"
proof -
  have T: "1 \<le> dim1 x"
    using assms(2,11) by simp
  from rnn_forward_run[OF assms(1,3-10) T] obtain h cache where r:
    "rnn_forward x h0 Wx Wh b = Inr (h, cache)"
    "dim0 h = N" "dim1 h = dim1 x" "dim2 h = H" "wf3 h" "length cache = dim1 x"
    "\<forall>t<dim1 x. \<exists>xt p ht. slice_t x t = Inr xt \<and> prev_h_at x h0 Wx Wh b t = Inr p
           \<and> rnn_step_forward xt p Wx Wh b = Inr (ht, cache ! t)
           \<and> (\<forall>i<N. \<forall>j<H. at3 h i t j = at2 ht i j)"
    by blast
  have "\<exists>xt p ht. slice_t x t = Inr xt \<and> prev_h_at x h0 Wx Wh b t = Inr p
           \<and> rnn_step_forward xt p Wx Wh b = Inr (ht, cache ! t)
           \<and> prev_h_at x h0 Wx Wh b (Suc t) = Inr ht
           \<and> (\<forall>i<N. \<forall>j<H. at3 h i t j = at2 ht i j)" if "t < T" for t
  proof -
    from r(7) that assms(2) obtain xt p ht where s:
      "slice_t x t = Inr xt" "prev_h_at x h0 Wx Wh b t = Inr p"
      "rnn_step_forward xt p Wx Wh b = Inr (ht, cache ! t)"
      "\<forall>i<N. \<forall>j<H. at3 h i t j = at2 ht i j"
      by blast
    have "prev_h_at x h0 Wx Wh b (Suc t) = Inr ht"
      by (simp add: s(1-3))
    with s show ?thesis by blast
  qed
  with r(1-6) assms(2) show ?thesis by auto
qed

theorem rnn_forward_steps_in_order_witness:
  "\<exists>h cache.
     rnn_forward \<lparr>dim0 = 1, dim1 = 2, dim2 = 1, buf3 = [1, 2]\<rparr> \<lparr>rows = 1, cols = 1, buf2 = [0]\<rparr>
       \<lparr>rows = 1, cols = 1, buf2 = [3]\<rparr> \<lparr>rows = 1, cols = 1, buf2 = [5]\<rparr> [7] = Inr (h, cache)
     \<and> dim0 h = 1 \<and> dim1 h = 2 \<and> dim2 h = 1 \<and> wf3 h \<and> length cache = 2"
proof -
  from rnn_forward_steps_in_order
    [of "\<lparr>dim0 = 1, dim1 = 2, dim2 = 1, buf3 = [1, 2]\<rparr>" 1 2 1 "\<lparr>rows = 1, cols = 1, buf2 = [0]\<rparr>" 1
        "\<lparr>rows = 1, cols = 1, buf2 = [3]\<rparr>" "\<lparr>rows = 1, cols = 1, buf2 = [5]\<rparr>" "[7]"]
  obtain h cache where
    "rnn_forward \<lparr>dim0 = 1, dim1 = 2, dim2 = 1, buf3 = [1, 2]\<rparr> \<lparr>rows = 1, cols = 1, buf2 = [0]\<rparr>
       \<lparr>rows = 1, cols = 1, buf2 = [3]\<rparr> \<lparr>rows = 1, cols = 1, buf2 = [5]\<rparr> [7] = Inr (h, cache)"
    "dim0 h = 1" "dim1 h = 2" "dim2 h = 1" "wf3 h" "length cache = 2"
    by auto
  then show ?thesis by blast
qed

section \<open>SequenceRunner: backward\<close>

lemma np_iadd2_eq:
  assumes "rows b = rows a" "cols b = cols a"
  shows "np_iadd2 a b = Inr (mk2 (rows a) (cols a) (\<lambda>i j. at2 a i j + at2 b i j))"
proof -
  have "mk2 (rows a) (cols a) (\<lambda>i j. at2 a i j + at2 b (bidx (rows b) i) (bidx (cols b) j)) =
        mk2 (rows a) (cols a) (\<lambda>i j. at2 a i j + at2 b i j)"
    by (rule mk2_cong) (simp add: assms)
  then show ?thesis
    using assms by (simp add: np_iadd2_def)
qed

lemma np_iadd1_eq:
  assumes "length b = length a"
  shows "np_iadd1 a b = Inr (map (\<lambda>j. a ! j + b ! j) [0..<length a])"
  using assms by (simp add: np_iadd1_def)

lemma rnn_backward_loop_append:
  "rnn_backward_loop dh cache (ts1 @ ts2) st =
     ebind (rnn_backward_loop dh cache ts1 st) (rnn_backward_loop dh cache ts2)"
proof (induction ts1 arbitrary: st)
  case Nil
  show ?case by simp
next
  case (Cons t ts1)
  obtain dx acc where st: "st = (dx, acc)"
    by (cases st) auto
  show ?case
    by (simp add: st Cons.IH ebind_def split: sum.splits prod.splits option.splits)
qed

lemma step_backward_grads:
  assumes "cache_ok N D H c" "rows g = N" "cols g = H"
  obtains r where "rnn_step_backward g c = Inr r" "grads_ok N D H r"
proof -
  have c: "rows (c_x c) = N" "cols (c_x c) = D" "rows (c_prev_h c) = N" "cols (c_prev_h c) = H"
      "rows (c_next_h c) = N" "cols (c_next_h c) = H" "wf2 (c_next_h c)"
      "rows (c_Wx c) = D" "cols (c_Wx c) = H" "rows (c_Wh c) = H" "cols (c_Wh c) = H"
    using assms(1) by (simp_all add: cache_ok_def)
  show thesis
  proof (rule step_backward_ok[OF c assms(2,3)])
    fix dx dprev_h dWx dWh db
    assume "rnn_step_backward g c = Inr (dx, dprev_h, dWx, dWh, db)"
      "rows dx = N" "cols dx = D" "wf2 dx"
      "rows dprev_h = N" "cols dprev_h = H" "wf2 dprev_h"
      "rows dWx = D" "cols dWx = H" "wf2 dWx"
      "rows dWh = H" "cols dWh = H" "wf2 dWh"
      "length db = H"
    then show thesis
      by (intro that[of "(dx, dprev_h, dWx, dWh, db)"])
        (simp_all add: grads_ok_def g_dx_def g_dprev_h_def g_dWx_def g_dWh_def g_db_def)
  qed
qed

lemma g_proj [simp]:
  "g_dx (dx, dprev_h, dWx, dWh, db) = dx" "g_dprev_h (dx, dprev_h, dWx, dWh, db) = dprev_h"
  "g_dWx (dx, dprev_h, dWx, dWh, db) = dWx" "g_dWh (dx, dprev_h, dWx, dWh, db) = dWh"
  "g_db (dx, dprev_h, dWx, dWh, db) = db"
  by (simp_all add: g_dx_def g_dprev_h_def g_dWx_def g_dWh_def g_db_def)

lemma py_index_eq: "i < length xs \<Longrightarrow> py_index xs i = Inr (xs ! i)"
  by (simp add: py_index_def)

lemma backward_iter_last:
  assumes "dim0 dh = N" "dim1 dh = T" "dim2 dh = H"
    and "1 \<le> T" "T - 1 < length cache" "cache_ok N D H (cache ! (T - 1))"
  obtains r where "bptt_step dh cache (T - 1) 0 = Inr r" "grads_ok N D H r"
    "rnn_backward_loop dh cache [T - 1] (dxs, acc) =
       Inr (dxs @ [g_dx r], Some (g_dprev_h r, g_dWx r, g_dWh r, g_db r))"
proof -
  define g where "g = mk2 (dim0 dh) (dim2 dh) (\<lambda>i k. at3 dh i (T - 1) k)"
  have sl: "slice_t dh (T - 1) = Inr g"
    using assms(2,4) by (simp add: slice_t_eq g_def)
  have gs: "rows g = N" "cols g = H"
    using assms(1,3) by (simp_all add: g_def)
  show thesis
  proof (rule step_backward_grads[OF assms(6) gs])
    fix r
    assume r: "rnn_step_backward g (cache ! (T - 1)) = Inr r" "grads_ok N D H r"
    obtain dx dprev_h dWx dWh db where rr: "r = (dx, dprev_h, dWx, dWh, db)"
      by (cases r) auto
    have "rnn_backward_loop dh cache [T - 1] (dxs, acc) =
       Inr (dxs @ [g_dx r], Some (g_dprev_h r, g_dWx r, g_dWh r, g_db r))"
      using assms(2,5) r(1) sl
      by (simp add: py_index_eq rr)
    moreover have "bptt_step dh cache (T - 1) 0 = Inr r"
      using sl r(1) by simp
    ultimately show thesis
      using r(2) by (intro that[of r])
  qed
qed

lemma backward_iter_later:
  assumes "dim0 dh = N" "dim1 dh = T" "dim2 dh = H"
    and "t < T - 1" "t < length cache" "cache_ok N D H (cache ! t)"
    and "bptt_step dh cache (Suc t) k = Inr later" "grads_ok N D H later"
    and "rows dWx = D" "cols dWx = H" "rows dWh = H" "cols dWh = H" "length db = H"
  obtains r where "bptt_step dh cache t (Suc k) = Inr r" "grads_ok N D H r"
    "rnn_backward_loop dh cache [t] (dxs, Some (g_dprev_h later, dWx, dWh, db)) =
       Inr (dxs @ [g_dx r],
            Some (g_dprev_h r,
                  mk2 D H (\<lambda>i j. at2 dWx i j + at2 (g_dWx r) i j),
                  mk2 H H (\<lambda>i j. at2 dWh i j + at2 (g_dWh r) i j),
                  map (\<lambda>j. db ! j + g_db r ! j) [0..<H]))"
proof -
  define g where "g = mk2 (dim0 dh) (dim2 dh) (\<lambda>i k. at3 dh i t k)"
  have sl: "slice_t dh t = Inr g"
    using assms(2,4) by (simp add: slice_t_eq g_def)
  have gs: "rows g = N" "cols g = H"
    using assms(1,3) by (simp_all add: g_def)
  have ls: "rows (g_dprev_h later) = N" "cols (g_dprev_h later) = H"
    using assms(8) by (simp_all add: grads_ok_def)
  define g' where "g' = mk2 N H (\<lambda>i j. at2 g i j + at2 (g_dprev_h later) i j)"
  have ad: "np_add2 g (g_dprev_h later) = Inr g'"
    using gs ls by (simp add: np_add2_def np_binop2_eq g'_def)
  have gs': "rows g' = N" "cols g' = H"
    by (simp_all add: g'_def)
  have ne: "t \<noteq> dim1 dh - 1"
    using assms(2,4) by simp
  show thesis
  proof (rule step_backward_grads[OF assms(6) gs'])
    fix r
    assume r: "rnn_step_backward g' (cache ! t) = Inr r" "grads_ok N D H r"
    obtain dx dprev_h dWx' dWh' db' where rr: "r = (dx, dprev_h, dWx', dWh', db')"
      by (cases r) auto
    have rs: "rows dWx' = D" "cols dWx' = H" "rows dWh' = H" "cols dWh' = H" "length db' = H"
      using r(2) by (simp_all add: rr grads_ok_def)
    have i1: "np_iadd2 dWx dWx' = Inr (mk2 D H (\<lambda>i j. at2 dWx i j + at2 dWx' i j))"
      using np_iadd2_eq[of dWx' dWx] rs assms(9,10) by simp
    have i2: "np_iadd2 dWh dWh' = Inr (mk2 H H (\<lambda>i j. at2 dWh i j + at2 dWh' i j))"
      using np_iadd2_eq[of dWh' dWh] rs assms(11,12) by simp
    have i3: "np_iadd1 db db' = Inr (map (\<lambda>j. db ! j + db' ! j) [0..<H])"
      using np_iadd1_eq[of db' db] rs assms(13) by simp
    have "rnn_backward_loop dh cache [t] (dxs, Some (g_dprev_h later, dWx, dWh, db)) =
       Inr (dxs @ [g_dx r],
            Some (g_dprev_h r,
                  mk2 D H (\<lambda>i j. at2 dWx i j + at2 (g_dWx r) i j),
                  mk2 H H (\<lambda>i j. at2 dWh i j + at2 (g_dWh r) i j),
                  map (\<lambda>j. db ! j + g_db r ! j) [0..<H]))"
      using ne assms(5) r(1)
      by (simp add: sl ad py_index_eq rr i1 i2 i3)
    moreover have "bptt_step dh cache t (Suc k) = Inr r"
      by (simp add: assms(7) sl ad r(1))
    ultimately show thesis
      using r(2) by (intro that[of r])
  qed
qed

lemma backward_loop_inv:
  assumes "dim0 dh = N" "dim1 dh = T" "dim2 dh = H"
    and "T \<le> length cache" "\<forall>t<T. cache_ok N D H (cache ! t)"
    and "Suc n \<le> T"
  shows "\<exists>gs dWx dWh db.
     length gs = Suc n
     \<and> (\<forall>k\<le>n. bptt_step dh cache (T - 1 - k) k = Inr (gs ! k) \<and> grads_ok N D H (gs ! k))
     \<and> rnn_backward_loop dh cache (map (\<lambda>k. T - 1 - k) [0..<Suc n]) ([], None) =
           Inr (map g_dx gs, Some (g_dprev_h (gs ! n), dWx, dWh, db))
     \<and> rows dWx = D \<and> cols dWx = H \<and> rows dWh = H \<and> cols dWh = H \<and> length db = H
     \<and> (\<forall>k<D. \<forall>j<H. at2 dWx k j = (\<Sum>q\<le>n. at2 (g_dWx (gs ! q)) k j))
     \<and> (\<forall>k<H. \<forall>j<H. at2 dWh k j = (\<Sum>q\<le>n. at2 (g_dWh (gs ! q)) k j))
     \<and> (\<forall>j<H. db ! j = (\<Sum>q\<le>n. g_db (gs ! q) ! j))"
  using assms(6)
proof (induction n)
  case 0
  then have T: "1 \<le> T" "T - 1 < length cache" "cache_ok N D H (cache ! (T - 1))"
    using assms(4,5) by simp_all
  show ?case
  proof (rule backward_iter_last[OF assms(1-3) T, of "[]" None])
    fix r
    assume r: "bptt_step dh cache (T - 1) 0 = Inr r" "grads_ok N D H r"
      "rnn_backward_loop dh cache [T - 1] ([], None) =
         Inr ([] @ [g_dx r], Some (g_dprev_h r, g_dWx r, g_dWh r, g_db r))"
    have "length [r] = Suc 0"
      "\<forall>k\<le>0. bptt_step dh cache (T - 1 - k) k = Inr ([r] ! k) \<and> grads_ok N D H ([r] ! k)"
      "rnn_backward_loop dh cache (map (\<lambda>k. T - 1 - k) [0..<Suc 0]) ([], None) =
           Inr (map g_dx [r], Some (g_dprev_h ([r] ! 0), g_dWx r, g_dWh r, g_db r))"
      "rows (g_dWx r) = D \<and> cols (g_dWx r) = H \<and> rows (g_dWh r) = H \<and> cols (g_dWh r) = H
         \<and> length (g_db r) = H"
      "\<forall>k<D. \<forall>j<H. at2 (g_dWx r) k j = (\<Sum>q\<le>0. at2 (g_dWx ([r] ! q)) k j)"
      "\<forall>k<H. \<forall>j<H. at2 (g_dWh r) k j = (\<Sum>q\<le>0. at2 (g_dWh ([r] ! q)) k j)"
      "\<forall>j<H. g_db r ! j = (\<Sum>q\<le>0. g_db ([r] ! q) ! j)"
      using r by (simp_all add: grads_ok_def)
    then show ?thesis by blast
  qed
next
  case (Suc n)
  then have n: "Suc n \<le> T" by simp
  from Suc.IH[OF n] obtain gs dWx dWh db where ih:
    "length gs = Suc n"
    "\<forall>k\<le>n. bptt_step dh cache (T - 1 - k) k = Inr (gs ! k) \<and> grads_ok N D H (gs ! k)"
    "rnn_backward_loop dh cache (map (\<lambda>k. T - 1 - k) [0..<Suc n]) ([], None) =
           Inr (map g_dx gs, Some (g_dprev_h (gs ! n), dWx, dWh, db))"
    "rows dWx = D" "cols dWx = H" "rows dWh = H" "cols dWh = H" "length db = H"
    "\<forall>k<D. \<forall>j<H. at2 dWx k j = (\<Sum>q\<le>n. at2 (g_dWx (gs ! q)) k j)"
    "\<forall>k<H. \<forall>j<H. at2 dWh k j = (\<Sum>q\<le>n. at2 (g_dWh (gs ! q)) k j)"
    "\<forall>j<H. db ! j = (\<Sum>q\<le>n. g_db (gs ! q) ! j)"
    by blast
  define t where "t = T - 1 - Suc n"
  have t: "t < T - 1" "t < length cache" "cache_ok N D H (cache ! t)" "Suc t = T - 1 - n"
    using Suc.prems assms(4,5) by (simp_all add: t_def)
  have later: "bptt_step dh cache (Suc t) n = Inr (gs ! n)" "grads_ok N D H (gs ! n)"
    using ih(2) t(4) by simp_all
  show ?case
  proof (rule backward_iter_later[OF assms(1-3) t(1-3) later ih(4-8), of "map g_dx gs"])
    fix r
    assume r: "bptt_step dh cache t (Suc n) = Inr r" "grads_ok N D H r"
      "rnn_backward_loop dh cache [t] (map g_dx gs, Some (g_dprev_h (gs ! n), dWx, dWh, db)) =
       Inr (map g_dx gs @ [g_dx r],
            Some (g_dprev_h r,
                  mk2 D H (\<lambda>i j. at2 dWx i j + at2 (g_dWx r) i j),
                  mk2 H H (\<lambda>i j. at2 dWh i j + at2 (g_dWh r) i j),
                  map (\<lambda>j. db ! j + g_db r ! j) [0..<H]))"
    let ?gs = "gs @ [r]"
    let ?dWx = "mk2 D H (\<lambda>i j. at2 dWx i j + at2 (g_dWx r) i j)"
    let ?dWh = "mk2 H H (\<lambda>i j. at2 dWh i j + at2 (g_dWh r) i j)"
    let ?db = "map (\<lambda>j. db ! j + g_db r ! j) [0..<H]"
    have old: "?gs ! q = gs ! q" if "q \<le> n" for q
      using that ih(1) by (simp add: nth_append)
    have new: "?gs ! Suc n = r"
      using ih(1) by (simp add: nth_append)
    have a: "length ?gs = Suc (Suc n)"
      using ih(1) by simp
    have b: "\<forall>k\<le>Suc n. bptt_step dh cache (T - 1 - k) k = Inr (?gs ! k) \<and> grads_ok N D H (?gs ! k)"
    proof (intro allI impI)
      fix k assume "k \<le> Suc n"
      then consider "k \<le> n" | "k = Suc n" by linarith
      then show "bptt_step dh cache (T - 1 - k) k = Inr (?gs ! k) \<and> grads_ok N D H (?gs ! k)"
      proof cases
        case 1
        with ih(2) old show ?thesis by simp
      next
        case 2
        with r(1,2) new show ?thesis by (simp add: t_def)
      qed
    qed
    have c: "rnn_backward_loop dh cache (map (\<lambda>k. T - 1 - k) [0..<Suc (Suc n)]) ([], None) =
           Inr (map g_dx ?gs, Some (g_dprev_h (?gs ! Suc n), ?dWx, ?dWh, ?db))"
    proof -
      have "map (\<lambda>k. T - 1 - k) [0..<Suc (Suc n)] = map (\<lambda>k. T - 1 - k) [0..<Suc n] @ [t]"
        by (simp add: t_def)
      then show ?thesis
        by (simp only: rnn_backward_loop_append ih(3) ebind_Inr r(3) new map_append list.map)
    qed
    have d: "rows ?dWx = D \<and> cols ?dWx = H \<and> rows ?dWh = H \<and> cols ?dWh = H \<and> length ?db = H"
      by simp
    have e: "\<forall>k<D. \<forall>j<H. at2 ?dWx k j = (\<Sum>q\<le>Suc n. at2 (g_dWx (?gs ! q)) k j)"
    proof (intro allI impI)
      fix k j assume kj: "k < D" "j < H"
      have "(\<Sum>q\<le>n. at2 (g_dWx (?gs ! q)) k j) = (\<Sum>q\<le>n. at2 (g_dWx (gs ! q)) k j)"
        by (intro sum.cong) (simp_all add: old)
      with kj ih(9) show "at2 ?dWx k j = (\<Sum>q\<le>Suc n. at2 (g_dWx (?gs ! q)) k j)"
        by (simp add: new)
    qed
    have f: "\<forall>k<H. \<forall>j<H. at2 ?dWh k j = (\<Sum>q\<le>Suc n. at2 (g_dWh (?gs ! q)) k j)"
    proof (intro allI impI)
      fix k j assume kj: "k < H" "j < H"
      have "(\<Sum>q\<le>n. at2 (g_dWh (?gs ! q)) k j) = (\<Sum>q\<le>n. at2 (g_dWh (gs ! q)) k j)"
        by (intro sum.cong) (simp_all add: old)
      with kj ih(10) show "at2 ?dWh k j = (\<Sum>q\<le>Suc n. at2 (g_dWh (?gs ! q)) k j)"
        by (simp add: new)
    qed
    have g: "\<forall>j<H. ?db ! j = (\<Sum>q\<le>Suc n. g_db (?gs ! q) ! j)"
    proof (intro allI impI)
      fix j assume j: "j < H"
      have "(\<Sum>q\<le>n. g_db (?gs ! q) ! j) = (\<Sum>q\<le>n. g_db (gs ! q) ! j)"
        by (intro sum.cong) (simp_all add: old)
      with j ih(11) show "?db ! j = (\<Sum>q\<le>Suc n. g_db (?gs ! q) ! j)"
        by (simp add: new)
    qed
    from a b c d e f g show ?thesis by blast
  qed
qed

lemma rev_upt_map: "rev [0..<n] = map (\<lambda>k. n - 1 - k) [0..<n]"
  by (rule nth_equalityI) (simp_all add: rev_nth)

lemma sum_rev_index:
  assumes "length gs = Suc n"
  shows "(\<Sum>q\<le>n. f (gs ! q)) = (\<Sum>t<Suc n. (f (rev gs ! t) :: real))"
proof -
  have "(\<Sum>t<Suc n. f (rev gs ! t)) = (\<Sum>t<Suc n. f (gs ! (Suc n - Suc t)))"
    using assms by (intro sum.cong) (simp_all add: rev_nth)
  also have "\<dots> = (\<Sum>t<Suc n. f (gs ! t))"
    by (rule sum.nat_diff_reindex)
  also have "\<dots> = (\<Sum>q\<le>n. f (gs ! q))"
    by (simp only: lessThan_Suc_atMost)
  finally show ?thesis by simp
qed

lemma rnn_backward_run:
  assumes "dim0 dh = N" "dim1 dh = T" "dim2 dh = H"
    and "T \<le> length cache" "\<forall>t<T. cache_ok N D H (cache ! t)"
    and "1 \<le> T"
  shows "\<exists>dx dh0 dWx dWh db gs.
     rnn_backward dh cache = Inr (dx, dh0, dWx, dWh, db)
     \<and> length gs = T
     \<and> (\<forall>t<T. bptt_step dh cache t (T - 1 - t) = Inr (gs ! t) \<and> grads_ok N D H (gs ! t))
     \<and> dim0 dx = N \<and> dim1 dx = T \<and> dim2 dx = D \<and> wf3 dx
     \<and> (\<forall>t<T. \<forall>i<N. \<forall>k<D. at3 dx i t k = at2 (g_dx (gs ! t)) i k)
     \<and> dh0 = g_dprev_h (gs ! 0)
     \<and> rows dWx = D \<and> cols dWx = H \<and> rows dWh = H \<and> cols dWh = H \<and> length db = H
     \<and> (\<forall>k<D. \<forall>j<H. at2 dWx k j = (\<Sum>t<T. at2 (g_dWx (gs ! t)) k j))
     \<and> (\<forall>k<H. \<forall>j<H. at2 dWh k j = (\<Sum>t<T. at2 (g_dWh (gs ! t)) k j))
     \<and> (\<forall>j<H. db ! j = (\<Sum>t<T. g_db (gs ! t) ! j))"
proof -
  obtain n where n: "T = Suc n"
    using assms(6) by (cases T) simp_all
  then have sn: "Suc n \<le> T" by simp
  from backward_loop_inv[OF assms(1-5) sn] obtain ps dWx dWh db where inv:
    "length ps = Suc n"
    "\<forall>k\<le>n. bptt_step dh cache (T - 1 - k) k = Inr (ps ! k) \<and> grads_ok N D H (ps ! k)"
    "rnn_backward_loop dh cache (map (\<lambda>k. T - 1 - k) [0..<Suc n]) ([], None) =
           Inr (map g_dx ps, Some (g_dprev_h (ps ! n), dWx, dWh, db))"
    "rows dWx = D" "cols dWx = H" "rows dWh = H" "cols dWh = H" "length db = H"
    "\<forall>k<D. \<forall>j<H. at2 dWx k j = (\<Sum>q\<le>n. at2 (g_dWx (ps ! q)) k j)"
    "\<forall>k<H. \<forall>j<H. at2 dWh k j = (\<Sum>q\<le>n. at2 (g_dWh (ps ! q)) k j)"
    "\<forall>j<H. db ! j = (\<Sum>q\<le>n. g_db (ps ! q) ! j)"
    by blast
  define gs where "gs = rev ps"
  have len: "length gs = T"
    by (simp add: gs_def inv(1) n)
  have nth: "gs ! t = ps ! (T - 1 - t)" if "t < T" for t
    using that by (simp add: gs_def rev_nth inv(1) n)
  have steps: "\<forall>t<T. bptt_step dh cache t (T - 1 - t) = Inr (gs ! t) \<and> grads_ok N D H (gs ! t)"
  proof (intro allI impI)
    fix t assume t: "t < T"
    then have "T - 1 - t \<le> n" "T - 1 - (T - 1 - t) = t"
      using n by simp_all
    with inv(2) nth[OF t]
    show "bptt_step dh cache t (T - 1 - t) = Inr (gs ! t) \<and> grads_ok N D H (gs ! t)"
      by metis
  qed
  define dx where "dx = mk3 N (length (map g_dx gs)) D (\<lambda>i t k. at2 (map g_dx gs ! t) i k)"
  have loop: "rnn_backward_loop dh cache (rev [0..<dim1 dh]) ([], None) =
           Inr (map g_dx ps, Some (g_dprev_h (ps ! n), dWx, dWh, db))"
    using inv(3) by (simp only: rev_upt_map assms(2) n)
  have shp: "rows g = N \<and> cols g = D" if "g \<in> set (map g_dx gs)" for g
  proof -
    from that obtain t where "t < T" "g = g_dx (gs ! t)"
      using len by (auto simp add: in_set_conv_nth)
    with steps show ?thesis
      by (simp add: grads_ok_def)
  qed
  have ne: "map g_dx gs \<noteq> []"
    using len n by auto
  have tr: "np_transpose_102 (rev (map g_dx ps)) = Inr dx"
    unfolding dx_def rev_map gs_def[symmetric] using ne shp by (rule np_transpose_102_eq)
  have run: "rnn_backward dh cache = Inr (dx, g_dprev_h (ps ! n), dWx, dWh, db)"
    by (simp add: rnn_backward_def loop tr)
  have dh0: "g_dprev_h (ps ! n) = g_dprev_h (gs ! 0)"
    using nth[of 0] n by simp
  have dims: "dim0 dx = N" "dim1 dx = T" "dim2 dx = D" "wf3 dx"
    by (simp_all add: dx_def len)
  have dxs: "\<forall>t<T. \<forall>i<N. \<forall>k<D. at3 dx i t k = at2 (g_dx (gs ! t)) i k"
    by (simp add: dx_def len)
  have s1: "\<forall>k<D. \<forall>j<H. at2 dWx k j = (\<Sum>t<T. at2 (g_dWx (gs ! t)) k j)"
    using inv(9) sum_rev_index[OF inv(1), of "\<lambda>g. at2 (g_dWx g) _ _"]
    by (simp only: gs_def n)
  have s2: "\<forall>k<H. \<forall>j<H. at2 dWh k j = (\<Sum>t<T. at2 (g_dWh (gs ! t)) k j)"
    using inv(10) sum_rev_index[OF inv(1), of "\<lambda>g. at2 (g_dWh g) _ _"]
    by (simp only: gs_def n)
  have s3: "\<forall>j<H. db ! j = (\<Sum>t<T. g_db (gs ! t) ! j)"
    using inv(11) sum_rev_index[OF inv(1), of "\<lambda>g. g_db g ! _"]
    by (simp only: gs_def n)
  from run len steps dims dxs dh0 inv(4-8) s1 s2 s3 show ?thesis
    by (intro exI[of _ dx] exI[of _ "g_dprev_h (ps ! n)"] exI[of _ dWx] exI[of _ dWh]
        exI[of _ db] exI[of _ gs]) simp
qed

text \<open>
  C1. For \<open>dh\<close> of shape \<open>(N,T,H)\<close> with \<open>T \<ge> 1\<close> and the cache list of the matching
  \<open>rnn_forward\<close> call, \<open>rnn_backward\<close> returns. The backward step of timestep \<open>t\<close> is the one
  of the recurrence \<open>bptt_step\<close>: it receives \<open>dh[:,T-1,:]\<close> at the last timestep and
  \<open>dh[:,t,:]\<close> plus the \<open>dprev_h\<close> of timestep \<open>t+1\<close> before. \<open>dx\<close> has shape \<open>(N,T,D)\<close> and
  its slice at \<open>t\<close> is the \<open>dx\<close> of timestep \<open>t\<close>; \<open>dh0\<close> is the \<open>dprev_h\<close> of timestep 0;
  \<open>dWx\<close>, \<open>dWh\<close> and \<open>db\<close> are the sums over all \<open>T\<close> timesteps of the per-step gradients.
\<close>

theorem rnn_backward_bptt:
  assumes "dim0 x = N" "dim1 x = T" "dim2 x = D" "rows h0 = N" "cols h0 = H"
    and "rows Wx = D" "cols Wx = H" "rows Wh = H" "cols Wh = H" "length b = H"
    and "1 \<le> T"
    and "rnn_forward x h0 Wx Wh b = Inr (h, cache)"
    and "dim0 dh = N" "dim1 dh = T" "dim2 dh = H"
  shows "\<exists>dx dh0 dWx dWh db gs.
     rnn_backward dh cache = Inr (dx, dh0, dWx, dWh, db)
     \<and> length gs = T
     \<and> (\<forall>t<T. bptt_step dh cache t (T - 1 - t) = Inr (gs ! t))
     \<and> dim0 dx = N \<and> dim1 dx = T \<and> dim2 dx = D \<and> wf3 dx
     \<and> (\<forall>t<T. \<forall>i<N. \<forall>k<D. at3 dx i t k = at2 (g_dx (gs ! t)) i k)
     \<and> dh0 = g_dprev_h (gs ! 0)
     \<and> rows dWx = D \<and> cols dWx = H \<and> rows dWh = H \<and> cols dWh = H \<and> length db = H
     \<and> (\<forall>k<D. \<forall>j<H. at2 dWx k j = (\<Sum>t<T. at2 (g_dWx (gs ! t)) k j))
     \<and> (\<forall>k<H. \<forall>j<H. at2 dWh k j = (\<Sum>t<T. at2 (g_dWh (gs ! t)) k j))
     \<and> (\<forall>j<H. db ! j = (\<Sum>t<T. g_db (gs ! t) ! j))"
proof -
  have T: "1 \<le> dim1 x"
    using assms(2,11) by simp
  from rnn_forward_run[OF assms(1,3-10) T] assms(12) have
    "length cache = dim1 x" "\<forall>t<dim1 x. cache_ok N D H (cache ! t)"
    by auto
  then have c: "T \<le> length cache" "\<forall>t<T. cache_ok N D H (cache ! t)"
    using assms(2) by simp_all
  from rnn_backward_run[OF assms(13-15) c assms(11)] obtain dx dh0 dWx dWh db gs where r:
     "rnn_backward dh cache = Inr (dx, dh0, dWx, dWh, db)"
     "length gs = T"
     "\<forall>t<T. bptt_step dh cache t (T - 1 - t) = Inr (gs ! t) \<and> grads_ok N D H (gs ! t)"
     "dim0 dx = N \<and> dim1 dx = T \<and> dim2 dx = D \<and> wf3 dx"
     "\<forall>t<T. \<forall>i<N. \<forall>k<D. at3 dx i t k = at2 (g_dx (gs ! t)) i k"
     "dh0 = g_dprev_h (gs ! 0)"
     "rows dWx = D \<and> cols dWx = H \<and> rows dWh = H \<and> cols dWh = H \<and> length db = H"
     "\<forall>k<D. \<forall>j<H. at2 dWx k j = (\<Sum>t<T. at2 (g_dWx (gs ! t)) k j)"
     "\<forall>k<H. \<forall>j<H. at2 dWh k j = (\<Sum>t<T. at2 (g_dWh (gs ! t)) k j)"
     "\<forall>j<H. db ! j = (\<Sum>t<T. g_db (gs ! t) ! j)"
    by blast
  from r(3) have "\<forall>t<T. bptt_step dh cache t (T - 1 - t) = Inr (gs ! t)"
    by blast
  with r(1,2,4-10) show ?thesis
    by (intro exI[of _ dx] exI[of _ dh0] exI[of _ dWx] exI[of _ dWh]
        exI[of _ db] exI[of _ gs]) simp
qed

lemmas seq_eval = rnn_forward_def rnn_step_forward_def slice_t_def np_transpose_102_def mk3_def
  at3_def Let_def np_eval

lemma forward_example:
  "rnn_forward \<lparr>dim0 = 1, dim1 = 2, dim2 = 1, buf3 = [1, 2]\<rparr> \<lparr>rows = 1, cols = 1, buf2 = [0]\<rparr>
       \<lparr>rows = 1, cols = 1, buf2 = [0]\<rparr> \<lparr>rows = 1, cols = 1, buf2 = [1]\<rparr> [0] =
   Inr (\<lparr>dim0 = 1, dim1 = 2, dim2 = 1, buf3 = [0, 0]\<rparr>,
        [\<lparr>c_x = \<lparr>rows = 1, cols = 1, buf2 = [1]\<rparr>, c_prev_h = \<lparr>rows = 1, cols = 1, buf2 = [0]\<rparr>,
          c_next_h = \<lparr>rows = 1, cols = 1, buf2 = [0]\<rparr>, c_Wh = \<lparr>rows = 1, cols = 1, buf2 = [1]\<rparr>,
          c_Wx = \<lparr>rows = 1, cols = 1, buf2 = [0]\<rparr>\<rparr>,
         \<lparr>c_x = \<lparr>rows = 1, cols = 1, buf2 = [2]\<rparr>, c_prev_h = \<lparr>rows = 1, cols = 1, buf2 = [0]\<rparr>,
          c_next_h = \<lparr>rows = 1, cols = 1, buf2 = [0]\<rparr>, c_Wh = \<lparr>rows = 1, cols = 1, buf2 = [1]\<rparr>,
          c_Wx = \<lparr>rows = 1, cols = 1, buf2 = [0]\<rparr>\<rparr>])"
  by (simp add: seq_eval eval_nat_numeral)


theorem rnn_backward_bptt_witness:
  "\<exists>dx dh0 dWx dWh db.
     rnn_backward \<lparr>dim0 = 1, dim1 = 2, dim2 = 1, buf3 = [3, 4]\<rparr>
        [\<lparr>c_x = \<lparr>rows = 1, cols = 1, buf2 = [1]\<rparr>, c_prev_h = \<lparr>rows = 1, cols = 1, buf2 = [0]\<rparr>,
          c_next_h = \<lparr>rows = 1, cols = 1, buf2 = [0]\<rparr>, c_Wh = \<lparr>rows = 1, cols = 1, buf2 = [1]\<rparr>,
          c_Wx = \<lparr>rows = 1, cols = 1, buf2 = [0]\<rparr>\<rparr>,
         \<lparr>c_x = \<lparr>rows = 1, cols = 1, buf2 = [2]\<rparr>, c_prev_h = \<lparr>rows = 1, cols = 1, buf2 = [0]\<rparr>,
          c_next_h = \<lparr>rows = 1, cols = 1, buf2 = [0]\<rparr>, c_Wh = \<lparr>rows = 1, cols = 1, buf2 = [1]\<rparr>,
          c_Wx = \<lparr>rows = 1, cols = 1, buf2 = [0]\<rparr>\<rparr>] = Inr (dx, dh0, dWx, dWh, db)
     \<and> dim0 dx = 1 \<and> dim1 dx = 2 \<and> dim2 dx = 1 \<and> wf3 dx
     \<and> rows dWx = 1 \<and> cols dWx = 1 \<and> rows dWh = 1 \<and> cols dWh = 1 \<and> length db = 1"
proof -
  from rnn_backward_bptt[where dh = "\<lparr>dim0 = 1, dim1 = 2, dim2 = 1, buf3 = [3, 4]\<rparr>"
      and N = 1 and T = 2 and D = 1 and H = 1, OF _ _ _ _ _ _ _ _ _ _ _ forward_example]
  obtain dx dh0 dWx dWh db where
    "rnn_backward \<lparr>dim0 = 1, dim1 = 2, dim2 = 1, buf3 = [3, 4]\<rparr>
        [\<lparr>c_x = \<lparr>rows = 1, cols = 1, buf2 = [1]\<rparr>, c_prev_h = \<lparr>rows = 1, cols = 1, buf2 = [0]\<rparr>,
          c_next_h = \<lparr>rows = 1, cols = 1, buf2 = [0]\<rparr>, c_Wh = \<lparr>rows = 1, cols = 1, buf2 = [1]\<rparr>,
          c_Wx = \<lparr>rows = 1, cols = 1, buf2 = [0]\<rparr>\<rparr>,
         \<lparr>c_x = \<lparr>rows = 1, cols = 1, buf2 = [2]\<rparr>, c_prev_h = \<lparr>rows = 1, cols = 1, buf2 = [0]\<rparr>,
          c_next_h = \<lparr>rows = 1, cols = 1, buf2 = [0]\<rparr>, c_Wh = \<lparr>rows = 1, cols = 1, buf2 = [1]\<rparr>,
          c_Wx = \<lparr>rows = 1, cols = 1, buf2 = [0]\<rparr>\<rparr>] = Inr (dx, dh0, dWx, dWh, db)"
    "dim0 dx = 1" "dim1 dx = 2" "dim2 dx = 1" "wf3 dx"
    "rows dWx = 1" "cols dWx = 1" "rows dWh = 1" "cols dWh = 1" "length db = 1"
    by auto
  then show ?thesis by blast
qed

section \<open>SequenceRunner: the length of the cache list and the number of timesteps\<close>

lemma rnn_backward_loop_extra:
  assumes "\<forall>t\<in>set ts. t < length cache"
  shows "rnn_backward_loop dh (cache @ extra) ts st = rnn_backward_loop dh cache ts st"
  using assms
proof (induction ts arbitrary: st)
  case Nil
  show ?case by simp
next
  case (Cons t ts)
  obtain dx acc where st: "st = (dx, acc)"
    by (cases st) auto
  have idx: "py_index (cache @ extra) t = py_index cache t"
    using Cons.prems by (simp add: py_index_def nth_append)
  have rest: "rnn_backward_loop dh (cache @ extra) ts s = rnn_backward_loop dh cache ts s" for s
    using Cons by simp
  show ?case
    by (simp only: st rnn_backward_loop.simps idx rest)
qed

lemma rnn_backward_short_cache:
  assumes "length cache < dim1 dh"
  shows "rnn_backward dh cache = Inl IndexError"
proof -
  obtain n where n: "dim1 dh = Suc n"
    using assms by (cases "dim1 dh") simp_all
  have sl: "slice_t dh n = Inr (mk2 (dim0 dh) (dim2 dh) (\<lambda>i k. at3 dh i n k))"
    using n by (simp add: slice_t_eq)
  have idx: "py_index cache n = Inl IndexError"
    using assms n by (simp add: py_index_def)
  have "rnn_backward_loop dh cache (rev [0..<dim1 dh]) ([], None) = Inl IndexError"
    by (simp add: n sl idx)
  then show ?thesis
    by (simp add: rnn_backward_def)
qed

text \<open>
  C8, as amended. A cache list shorter than the number \<open>T\<close> of timesteps of \<open>dh\<close> makes
  \<open>rnn_backward\<close> fail (\<open>IndexError\<close>, at the first timestep it processes). A longer cache
  list is not rejected: the entries from index \<open>T\<close> on are never read, and the call behaves
  as on the first \<open>T\<close> entries.
\<close>

theorem rnn_backward_cache_length:
  "(length cache < dim1 dh \<longrightarrow> rnn_backward dh cache = Inl IndexError)
   \<and> (dim1 dh \<le> length cache \<longrightarrow> rnn_backward dh (cache @ extra) = rnn_backward dh cache)"
proof (intro conjI impI)
  assume "length cache < dim1 dh"
  then show "rnn_backward dh cache = Inl IndexError"
    by (rule rnn_backward_short_cache)
next
  assume "dim1 dh \<le> length cache"
  then have "\<forall>t\<in>set (rev [0..<dim1 dh]). t < length cache"
    by simp
  then have "rnn_backward_loop dh (cache @ extra) (rev [0..<dim1 dh]) ([], None) =
         rnn_backward_loop dh cache (rev [0..<dim1 dh]) ([], None)"
    by (rule rnn_backward_loop_extra)
  then show "rnn_backward dh (cache @ extra) = rnn_backward dh cache"
    by (simp add: rnn_backward_def)
qed

lemmas bwd_eval = rnn_backward_def rnn_step_backward_def slice_t_def np_transpose_102_def mk3_def
  at3_def Let_def py_index_def np_eval

lemma backward_example:
  "rnn_backward \<lparr>dim0 = 1, dim1 = 1, dim2 = 1, buf3 = [3]\<rparr>
     [\<lparr>c_x = \<lparr>rows = 1, cols = 1, buf2 = [1]\<rparr>, c_prev_h = \<lparr>rows = 1, cols = 1, buf2 = [0]\<rparr>,
       c_next_h = \<lparr>rows = 1, cols = 1, buf2 = [0]\<rparr>, c_Wh = \<lparr>rows = 1, cols = 1, buf2 = [1]\<rparr>,
       c_Wx = \<lparr>rows = 1, cols = 1, buf2 = [0]\<rparr>\<rparr>] =
   Inr (\<lparr>dim0 = 1, dim1 = 1, dim2 = 1, buf3 = [0]\<rparr>, \<lparr>rows = 1, cols = 1, buf2 = [3]\<rparr>,
        \<lparr>rows = 1, cols = 1, buf2 = [3]\<rparr>, \<lparr>rows = 1, cols = 1, buf2 = [0]\<rparr>, [3])"
  by (simp add: bwd_eval)

theorem rnn_backward_cache_length_witness:
  "rnn_backward \<lparr>dim0 = 1, dim1 = 1, dim2 = 1, buf3 = [3]\<rparr> [] = Inl IndexError
   \<and> rnn_backward \<lparr>dim0 = 1, dim1 = 1, dim2 = 1, buf3 = [3]\<rparr>
     ([\<lparr>c_x = \<lparr>rows = 1, cols = 1, buf2 = [1]\<rparr>, c_prev_h = \<lparr>rows = 1, cols = 1, buf2 = [0]\<rparr>,
       c_next_h = \<lparr>rows = 1, cols = 1, buf2 = [0]\<rparr>, c_Wh = \<lparr>rows = 1, cols = 1, buf2 = [1]\<rparr>,
       c_Wx = \<lparr>rows = 1, cols = 1, buf2 = [0]\<rparr>\<rparr>] @
      [\<lparr>c_x = \<lparr>rows = 1, cols = 1, buf2 = [2]\<rparr>, c_prev_h = \<lparr>rows = 1, cols = 1, buf2 = [0]\<rparr>,
       c_next_h = \<lparr>rows = 1, cols = 1, buf2 = [0]\<rparr>, c_Wh = \<lparr>rows = 1, cols = 1, buf2 = [1]\<rparr>,
       c_Wx = \<lparr>rows = 1, cols = 1, buf2 = [0]\<rparr>\<rparr>]) =
   Inr (\<lparr>dim0 = 1, dim1 = 1, dim2 = 1, buf3 = [0]\<rparr>, \<lparr>rows = 1, cols = 1, buf2 = [3]\<rparr>,
        \<lparr>rows = 1, cols = 1, buf2 = [3]\<rparr>, \<lparr>rows = 1, cols = 1, buf2 = [0]\<rparr>, [3])"
  using rnn_backward_cache_length[of "[]" "\<lparr>dim0 = 1, dim1 = 1, dim2 = 1, buf3 = [3]\<rparr>" "[]"]
    rnn_backward_cache_length[of
     "[\<lparr>c_x = \<lparr>rows = 1, cols = 1, buf2 = [1]\<rparr>, c_prev_h = \<lparr>rows = 1, cols = 1, buf2 = [0]\<rparr>,
       c_next_h = \<lparr>rows = 1, cols = 1, buf2 = [0]\<rparr>, c_Wh = \<lparr>rows = 1, cols = 1, buf2 = [1]\<rparr>,
       c_Wx = \<lparr>rows = 1, cols = 1, buf2 = [0]\<rparr>\<rparr>]"
     "\<lparr>dim0 = 1, dim1 = 1, dim2 = 1, buf3 = [3]\<rparr>"
     "[\<lparr>c_x = \<lparr>rows = 1, cols = 1, buf2 = [2]\<rparr>, c_prev_h = \<lparr>rows = 1, cols = 1, buf2 = [0]\<rparr>,
       c_next_h = \<lparr>rows = 1, cols = 1, buf2 = [0]\<rparr>, c_Wh = \<lparr>rows = 1, cols = 1, buf2 = [1]\<rparr>,
       c_Wx = \<lparr>rows = 1, cols = 1, buf2 = [0]\<rparr>\<rparr>]"]
    backward_example
  by simp

text \<open>
  A cache list of two entries with a gradient of one timestep: the call returns, and the
  second entry is ignored.
\<close>

theorem rnn_backward_longer_cache_accepted:
  "rnn_backward \<lparr>dim0 = 1, dim1 = 1, dim2 = 1, buf3 = [3]\<rparr>
     [\<lparr>c_x = \<lparr>rows = 1, cols = 1, buf2 = [1]\<rparr>, c_prev_h = \<lparr>rows = 1, cols = 1, buf2 = [0]\<rparr>,
       c_next_h = \<lparr>rows = 1, cols = 1, buf2 = [0]\<rparr>, c_Wh = \<lparr>rows = 1, cols = 1, buf2 = [1]\<rparr>,
       c_Wx = \<lparr>rows = 1, cols = 1, buf2 = [0]\<rparr>\<rparr>,
      \<lparr>c_x = \<lparr>rows = 1, cols = 1, buf2 = [2]\<rparr>, c_prev_h = \<lparr>rows = 1, cols = 1, buf2 = [0]\<rparr>,
       c_next_h = \<lparr>rows = 1, cols = 1, buf2 = [0]\<rparr>, c_Wh = \<lparr>rows = 1, cols = 1, buf2 = [1]\<rparr>,
       c_Wx = \<lparr>rows = 1, cols = 1, buf2 = [0]\<rparr>\<rparr>] =
   Inr (\<lparr>dim0 = 1, dim1 = 1, dim2 = 1, buf3 = [0]\<rparr>, \<lparr>rows = 1, cols = 1, buf2 = [3]\<rparr>,
        \<lparr>rows = 1, cols = 1, buf2 = [3]\<rparr>, \<lparr>rows = 1, cols = 1, buf2 = [0]\<rparr>, [3])"
  by (simp add: bwd_eval)

lemma rnn_forward_no_timesteps:
  assumes "dim1 x = 0"
  shows "rnn_forward x h0 Wx Wh b = Inl ValueError"
  using assms by (simp add: rnn_forward_def np_transpose_102_def)

lemma rnn_backward_no_timesteps:
  assumes "dim1 dh = 0"
  shows "rnn_backward dh cache = Inl ValueError"
  using assms by (simp add: rnn_backward_def np_transpose_102_def)

text \<open>
  C10. With no timestep (\<open>T = 0\<close>) \<open>rnn_forward\<close> fails instead of returning an empty
  \<open>(N,0,H)\<close> array, and \<open>rnn_backward\<close> fails instead of returning zero gradients: the
  loops do not run, and the empty Python list cannot be transposed as a rank-3 array (the
  accumulators of \<open>rnn_backward\<close> are unbound at that point). With \<open>T \<ge> 1\<close> and arguments
  of the documented shapes \<open>rnn_forward\<close> returns, and \<open>rnn_backward\<close> returns on the cache
  of that run for every \<open>dh\<close> of shape \<open>(N,T,H)\<close>.
\<close>

theorem rnn_requires_a_timestep:
  "(dim1 x = 0 \<longrightarrow> rnn_forward x h0 Wx Wh b = Inl ValueError)
   \<and> (dim1 dh = 0 \<longrightarrow> rnn_backward dh cache = Inl ValueError)
   \<and> (dim0 x = N \<and> dim2 x = D \<and> rows h0 = N \<and> cols h0 = H \<and> rows Wx = D \<and> cols Wx = H
        \<and> rows Wh = H \<and> cols Wh = H \<and> length b = H \<and> 1 \<le> dim1 x \<longrightarrow>
        (\<exists>h c. rnn_forward x h0 Wx Wh b = Inr (h, c)
           \<and> (\<forall>g. dim0 g = N \<and> dim1 g = dim1 x \<and> dim2 g = H \<longrightarrow>
                  (\<exists>r. rnn_backward g c = Inr r))))"
proof (intro conjI impI)
  assume "dim1 x = 0"
  then show "rnn_forward x h0 Wx Wh b = Inl ValueError"
    by (rule rnn_forward_no_timesteps)
next
  assume "dim1 dh = 0"
  then show "rnn_backward dh cache = Inl ValueError"
    by (rule rnn_backward_no_timesteps)
next
  assume a: "dim0 x = N \<and> dim2 x = D \<and> rows h0 = N \<and> cols h0 = H \<and> rows Wx = D \<and> cols Wx = H
        \<and> rows Wh = H \<and> cols Wh = H \<and> length b = H \<and> 1 \<le> dim1 x"
  then have s: "dim0 x = N" "dim2 x = D" "rows h0 = N" "cols h0 = H" "rows Wx = D" "cols Wx = H"
    "rows Wh = H" "cols Wh = H" "length b = H" "1 \<le> dim1 x"
    by simp_all
  from rnn_forward_run[OF s] obtain h c where f:
    "rnn_forward x h0 Wx Wh b = Inr (h, c)" "length c = dim1 x"
    "\<forall>t<dim1 x. cache_ok N D H (c ! t)"
    by blast
  have "\<exists>r. rnn_backward g c = Inr r" if g: "dim0 g = N \<and> dim1 g = dim1 x \<and> dim2 g = H" for g
  proof -
    have "dim0 g = N" "dim1 g = dim1 x" "dim2 g = H" "dim1 x \<le> length c"
      using g f(2) by simp_all
    from rnn_backward_run[OF this f(3) s(10)] show ?thesis
      by blast
  qed
  with f(1) show "\<exists>h c. rnn_forward x h0 Wx Wh b = Inr (h, c)
           \<and> (\<forall>g. dim0 g = N \<and> dim1 g = dim1 x \<and> dim2 g = H \<longrightarrow>
                  (\<exists>r. rnn_backward g c = Inr r))"
    by blast
qed


theorem rnn_requires_a_timestep_witness:
  "rnn_forward \<lparr>dim0 = 1, dim1 = 0, dim2 = 1, buf3 = []\<rparr> \<lparr>rows = 1, cols = 1, buf2 = [0]\<rparr>
       \<lparr>rows = 1, cols = 1, buf2 = [0]\<rparr> \<lparr>rows = 1, cols = 1, buf2 = [1]\<rparr> [0] = Inl ValueError
   \<and> rnn_backward \<lparr>dim0 = 1, dim1 = 0, dim2 = 1, buf3 = []\<rparr> [] = Inl ValueError
   \<and> (\<exists>h c. rnn_forward \<lparr>dim0 = 1, dim1 = 2, dim2 = 1, buf3 = [1, 2]\<rparr>
          \<lparr>rows = 1, cols = 1, buf2 = [0]\<rparr> \<lparr>rows = 1, cols = 1, buf2 = [0]\<rparr>
          \<lparr>rows = 1, cols = 1, buf2 = [1]\<rparr> [0] = Inr (h, c)
        \<and> (\<exists>r. rnn_backward \<lparr>dim0 = 1, dim1 = 2, dim2 = 1, buf3 = [3, 4]\<rparr> c = Inr r))"
proof -
  have a: "rnn_forward \<lparr>dim0 = 1, dim1 = 0, dim2 = 1, buf3 = []\<rparr> \<lparr>rows = 1, cols = 1, buf2 = [0]\<rparr>
       \<lparr>rows = 1, cols = 1, buf2 = [0]\<rparr> \<lparr>rows = 1, cols = 1, buf2 = [1]\<rparr> [0] = Inl ValueError"
    "rnn_backward \<lparr>dim0 = 1, dim1 = 0, dim2 = 1, buf3 = []\<rparr> [] = Inl ValueError"
    using rnn_requires_a_timestep[of "\<lparr>dim0 = 1, dim1 = 0, dim2 = 1, buf3 = []\<rparr>"
        "\<lparr>rows = 1, cols = 1, buf2 = [0]\<rparr>" "\<lparr>rows = 1, cols = 1, buf2 = [0]\<rparr>"
        "\<lparr>rows = 1, cols = 1, buf2 = [1]\<rparr>" "[0]"
        "\<lparr>dim0 = 1, dim1 = 0, dim2 = 1, buf3 = []\<rparr>" "[]"]
    by simp_all
  from rnn_requires_a_timestep[of "\<lparr>dim0 = 1, dim1 = 2, dim2 = 1, buf3 = [1, 2]\<rparr>"
        "\<lparr>rows = 1, cols = 1, buf2 = [0]\<rparr>" "\<lparr>rows = 1, cols = 1, buf2 = [0]\<rparr>"
        "\<lparr>rows = 1, cols = 1, buf2 = [1]\<rparr>" "[0]"
        "\<lparr>dim0 = 1, dim1 = 0, dim2 = 1, buf3 = []\<rparr>" "[]" 1 1 1]
  obtain h c where
    f: "rnn_forward \<lparr>dim0 = 1, dim1 = 2, dim2 = 1, buf3 = [1, 2]\<rparr>
          \<lparr>rows = 1, cols = 1, buf2 = [0]\<rparr> \<lparr>rows = 1, cols = 1, buf2 = [0]\<rparr>
          \<lparr>rows = 1, cols = 1, buf2 = [1]\<rparr> [0] = Inr (h, c)"
    and g: "\<forall>g. dim0 g = 1 \<and> dim1 g = 2 \<and> dim2 g = 1 \<longrightarrow> (\<exists>r. rnn_backward g c = Inr r)"
    by auto
  from g have "\<exists>r. rnn_backward \<lparr>dim0 = 1, dim1 = 2, dim2 = 1, buf3 = [3, 4]\<rparr> c = Inr r"
    by simp
  with a f show ?thesis by blast
qed

section \<open>MaskedAverager: forward\<close>

lemma concat_rows_tab2: "concat (map (\<lambda>i. map (f i) [0..<m]) [0..<n]) = tab2 n m f"
  by (simp add: tab2_def)

lemma length_np_sum_axis1 [simp]: "length (np_sum_axis1 a) = rows a"
  by (simp add: np_sum_axis1_def)

lemma nth_np_sum_axis1: "i < rows a \<Longrightarrow> np_sum_axis1 a ! i = mask_count a i"
  by (simp add: np_sum_axis1_def sum_list_upt mask_count_def)

lemma average_forward_iter:
  assumes "rows msk = dim0 hi" "cols msk = dim1 hi" "i < dim0 hi"
  shows "average_forward_loop hi msk (np_sum_axis1 msk) (i # rest) ho =
         average_forward_loop hi msk (np_sum_axis1 msk) rest (ho @ [avg_row hi msk i])"
proof -
  define m where "m = map (\<lambda>j. at2 msk i j) [0..<cols msk]"
  define h where "h = mk2 (dim1 hi) (dim2 hi) (\<lambda>t k. at3 hi i t k)"
  define s where "s = map (\<lambda>j. masked_sum hi msk i j) [0..<dim2 hi]"
  have e1: "np_row2 msk i = Inr m"
    using assms by (simp add: np_row2_def m_def)
  have e2: "np_sub3 hi i = Inr h"
    using assms by (simp add: np_sub3_def h_def)
  have "(\<Sum>k<dim1 hi. m ! k * at2 h k j) = masked_sum hi msk i j" if "j < dim2 hi" for j
    unfolding masked_sum_def using that assms(2)
    by (intro sum.cong) (simp_all add: m_def h_def)
  then have "map (\<lambda>j. \<Sum>k<dim1 hi. m ! k * at2 h k j) [0..<dim2 hi] = s"
    by (simp add: s_def)
  then have e3: "np_dot12 m h = Inr s"
    using assms(2) by (simp add: np_dot12_def m_def h_def sum_list_upt)
  have e4: "py_index (np_sum_axis1 msk) i = Inr (mask_count msk i)"
    using assms(1,3) by (simp add: py_index_def nth_np_sum_axis1)
  have "map (\<lambda>v. np_true_divide v (mask_count msk i)) s = avg_row hi msk i"
    by (simp add: s_def avg_row_def comp_def)
  then show ?thesis
    by (simp add: e1 e2 e3 e4)
qed

lemma average_forward_loop_eq:
  assumes "rows msk = dim0 hi" "cols msk = dim1 hi" "\<forall>i\<in>set idx. i < dim0 hi"
  shows "average_forward_loop hi msk (np_sum_axis1 msk) idx ho =
         Inr (ho @ map (avg_row hi msk) idx)"
  using assms(3)
proof (induction idx arbitrary: ho)
  case Nil
  show ?case by simp
next
  case (Cons i idx)
  then have "i < dim0 hi" "\<forall>i\<in>set idx. i < dim0 hi"
    by simp_all
  then show ?case
    using Cons.IH[of "ho @ [avg_row hi msk i]"]
    by (simp only: average_forward_iter[OF assms(1,2)]) simp
qed

lemma average_forward_eq:
  assumes "rows msk = dim0 hi" "cols msk = dim1 hi" "1 \<le> dim0 hi"
  shows "average_forward hi msk =
    Inr (A2 (mk2 (dim0 hi) (dim2 hi)
               (\<lambda>i j. np_true_divide (masked_sum hi msk i j) (mask_count msk i))),
         \<lparr>ac_mask = msk, ac_count = np_sum_axis1 msk\<rparr>)"
proof -
  let ?rows = "map (avg_row hi msk) [0..<dim0 hi]"
  have loop: "average_forward_loop hi msk (np_sum_axis1 msk) [0..<dim0 hi] [] = Inr ?rows"
    using average_forward_loop_eq[OF assms(1,2), of "[0..<dim0 hi]" "[]"] by simp
  obtain n where n: "dim0 hi = Suc n"
    using assms(3) by (cases "dim0 hi") simp_all
  have hd: "?rows = avg_row hi msk 0 # map (avg_row hi msk) [1..<dim0 hi]"
    by (simp add: n upt_conv_Cons del: upt_Suc)
  have len: "\<forall>q\<in>set ?rows. length q = dim2 hi"
    by (simp add: avg_row_def)
  have "length (avg_row hi msk 0) = dim2 hi"
    by (simp add: avg_row_def)
  with len have "np_array_rows ?rows =
      Inr (A2 \<lparr>rows = length ?rows, cols = dim2 hi, buf2 = concat ?rows\<rparr>)"
    unfolding np_array_rows_def by (subst (1 2) hd) (simp del: upt_Suc)
  moreover have "concat ?rows =
      tab2 (dim0 hi) (dim2 hi) (\<lambda>i j. np_true_divide (masked_sum hi msk i j) (mask_count msk i))"
  proof -
    have "avg_row hi msk =
        (\<lambda>i. map (\<lambda>j. np_true_divide (masked_sum hi msk i j) (mask_count msk i)) [0..<dim2 hi])"
      by (rule ext) (simp add: avg_row_def)
    then show ?thesis
      by (simp add: tab2_def)
  qed
  ultimately have arr: "np_array_rows ?rows =
      Inr (A2 (mk2 (dim0 hi) (dim2 hi)
             (\<lambda>i j. np_true_divide (masked_sum hi msk i j) (mask_count msk i))))"
    by (simp add: mk2_def)
  show ?thesis
    by (simp add: average_forward_def Let_def loop arr)
qed

lemma average_forward_empty_batch:
  assumes "dim0 hi = 0"
  shows "average_forward hi msk = Inr (A1 [], \<lparr>ac_mask = msk, ac_count = np_sum_axis1 msk\<rparr>)"
  using assms by (simp add: average_forward_def np_array_rows_def)

lemmas avg_eval = average_forward_def np_sum_axis1_def np_row2_def np_sub3_def np_dot12_def
  np_true_divide_def np_array_rows_def py_index_def at3_def Let_def np_eval

text \<open>
  One sample with one timestep and mask 0: the count is 0 and the call returns normally,
  with a non-finite entry.
\<close>

theorem average_forward_zero_count_returns:
  "average_forward \<lparr>dim0 = 1, dim1 = 1, dim2 = 1, buf3 = [1]\<rparr> \<lparr>rows = 1, cols = 1, buf2 = [0]\<rparr> =
   Inr (A2 \<lparr>rows = 1, cols = 1, buf2 = [NanOrInf]\<rparr>,
        \<lparr>ac_mask = \<lparr>rows = 1, cols = 1, buf2 = [0]\<rparr>, ac_count = [0]\<rparr>)"
  by (simp add: avg_eval)

text \<open>
  C5, as amended. When sample \<open>i\<close> has \<open>count[i] = 0\<close>, \<open>average_forward\<close> does not fail:
  it returns \<open>avg\<close> of shape \<open>(N,H)\<close>, and every entry of row \<open>i\<close> is the non-finite result
  (\<open>nan\<close> or an infinity) of the division by zero.
\<close>

theorem average_forward_zero_count:
  assumes "dim0 hi = N" "dim1 hi = T" "dim2 hi = H" "rows msk = N" "cols msk = T"
    and "i < N" "mask_count msk i = 0"
  shows "\<exists>avg cache. average_forward hi msk = Inr (A2 avg, cache)
     \<and> rows avg = N \<and> cols avg = H \<and> (\<forall>j<H. at2 avg i j = NanOrInf)"
proof -
  have s: "rows msk = dim0 hi" "cols msk = dim1 hi" "1 \<le> dim0 hi"
    using assms by simp_all
  let ?avg = "mk2 (dim0 hi) (dim2 hi)
               (\<lambda>i j. np_true_divide (masked_sum hi msk i j) (mask_count msk i))"
  have "rows ?avg = N" "cols ?avg = H"
    using assms(1,3) by simp_all
  moreover have "\<forall>j<H. at2 ?avg i j = NanOrInf"
    using assms(1,3,6,7) by (simp add: np_true_divide_def)
  ultimately show ?thesis
    using average_forward_eq[OF s] by blast
qed

theorem average_forward_zero_count_witness:
  "\<exists>avg cache.
     average_forward \<lparr>dim0 = 1, dim1 = 1, dim2 = 1, buf3 = [1]\<rparr> \<lparr>rows = 1, cols = 1, buf2 = [0]\<rparr> =
       Inr (A2 avg, cache)
     \<and> rows avg = 1 \<and> cols avg = 1 \<and> at2 avg 0 0 = NanOrInf"
  using average_forward_zero_count
    [of "\<lparr>dim0 = 1, dim1 = 1, dim2 = 1, buf3 = [1]\<rparr>" 1 1 1 "\<lparr>rows = 1, cols = 1, buf2 = [0]\<rparr>" 0]
  by (simp add: mask_count_def at2_def)

text \<open>
  C6. For \<open>h\<close> of shape \<open>(N,T,H)\<close> and a mask of shape \<open>(N,T)\<close> with every count nonzero,
  \<open>average_forward\<close> is to return \<open>avg\<close> of shape \<open>(N,H)\<close>, the shape its docstring states,
  with \<open>avg[i] = (mask[i]\<cdot>h[i]) / count[i]\<close>. On an empty batch the code does not: for
  \<open>h\<close> of shape \<open>(0,1,1)\<close> and a mask of shape \<open>(0,1)\<close> the loop appends nothing,
  \<open>np.array\<close> of the empty list is the rank-1 array of shape \<open>(0,)\<close>, and that array is
  returned in place of one of shape \<open>(0,1)\<close>.
\<close>

theorem average_forward_empty_batch_rank1:
  "average_forward \<lparr>dim0 = 0, dim1 = 1, dim2 = 1, buf3 = []\<rparr> \<lparr>rows = 0, cols = 1, buf2 = []\<rparr> =
   Inr (A1 [], \<lparr>ac_mask = \<lparr>rows = 0, cols = 1, buf2 = []\<rparr>, ac_count = []\<rparr>)"
  by (simp add: avg_eval)

text \<open>
  With at least one sample the layer computes the weighted mean: for \<open>h\<close> of shape
  \<open>(N,T,H)\<close> and a mask of shape \<open>(N,T)\<close> with \<open>N \<ge> 1\<close> and every count nonzero,
  \<open>average_forward\<close> returns \<open>avg\<close> of shape \<open>(N,H)\<close> with
  \<open>avg[i] = (mask[i]\<cdot>h[i]) / count[i]\<close>; when the mask is all ones this is the unweighted mean
  of \<open>h[i]\<close> over the \<open>T\<close> timesteps.
\<close>

theorem average_forward_weighted_mean:
  assumes "dim0 hi = N" "dim1 hi = T" "dim2 hi = H" "rows msk = N" "cols msk = T"
    and "1 \<le> N" "\<forall>i<N. (\<Sum>t<T. at2 msk i t) \<noteq> 0"
  shows "\<exists>avg cache. average_forward hi msk = Inr (A2 avg, cache)
     \<and> rows avg = N \<and> cols avg = H \<and> wf2 avg
     \<and> (\<forall>i<N. \<forall>j<H. at2 avg i j =
            Finite ((\<Sum>t<T. at2 msk i t * at3 hi i t j) / (\<Sum>t<T. at2 msk i t)))
     \<and> ((\<forall>i<N. \<forall>t<T. at2 msk i t = 1) \<longrightarrow>
            (\<forall>i<N. \<forall>j<H. at2 avg i j = Finite ((\<Sum>t<T. at3 hi i t j) / real T)))"
proof -
  have s: "rows msk = dim0 hi" "cols msk = dim1 hi" "1 \<le> dim0 hi"
    using assms by simp_all
  let ?avg = "mk2 (dim0 hi) (dim2 hi)
               (\<lambda>i j. np_true_divide (masked_sum hi msk i j) (mask_count msk i))"
  have shape: "rows ?avg = N" "cols ?avg = H" "wf2 ?avg"
    using assms(1,3) by simp_all
  have entry: "at2 ?avg i j = Finite ((\<Sum>t<T. at2 msk i t * at3 hi i t j) / (\<Sum>t<T. at2 msk i t))"
    if "i < N" "j < H" for i j
    using that assms(1-3,5,7)
    by (simp add: np_true_divide_def masked_sum_def mask_count_def)
  have ones: "at2 ?avg i j = Finite ((\<Sum>t<T. at3 hi i t j) / real T)"
    if "\<forall>i<N. \<forall>t<T. at2 msk i t = 1" "i < N" "j < H" for i j
  proof -
    have "(\<Sum>t<T. at2 msk i t * at3 hi i t j) = (\<Sum>t<T. at3 hi i t j)"
      using that(1,2) by (intro sum.cong) simp_all
    moreover have "(\<Sum>t<T. at2 msk i t) = real T"
      using that(1,2) by simp
    ultimately show ?thesis
      using entry[OF that(2,3)] by simp
  qed
  from shape entry ones show ?thesis
    using average_forward_eq[OF s] by blast
qed


theorem average_forward_weighted_mean_witness:
  "\<exists>avg cache.
     average_forward \<lparr>dim0 = 1, dim1 = 2, dim2 = 1, buf3 = [2, 4]\<rparr>
       \<lparr>rows = 1, cols = 2, buf2 = [1, 1]\<rparr> = Inr (A2 avg, cache)
     \<and> rows avg = 1 \<and> cols avg = 1 \<and> at2 avg 0 0 = Finite 3"
proof -
  have c: "\<forall>i<1. (\<Sum>t<2. at2 \<lparr>rows = 1, cols = 2, buf2 = [1, 1 :: real]\<rparr> i t) \<noteq> 0"
    by (simp add: at2_def eval_nat_numeral)
  have m: "\<forall>i<1. \<forall>t<2. at2 \<lparr>rows = 1, cols = 2, buf2 = [1, 1 :: real]\<rparr> i t = 1"
    by (simp add: at2_def less_Suc_eq eval_nat_numeral)
  from average_forward_weighted_mean
    [of "\<lparr>dim0 = 1, dim1 = 2, dim2 = 1, buf3 = [2, 4]\<rparr>" 1 2 1
        "\<lparr>rows = 1, cols = 2, buf2 = [1, 1]\<rparr>", OF _ _ _ _ _ _ c] m
  obtain avg cache where
    "average_forward \<lparr>dim0 = 1, dim1 = 2, dim2 = 1, buf3 = [2, 4]\<rparr>
       \<lparr>rows = 1, cols = 2, buf2 = [1, 1]\<rparr> = Inr (A2 avg, cache)"
    "rows avg = 1" "cols avg = 1"
    "at2 avg 0 0 = Finite ((\<Sum>t<2. at3 \<lparr>dim0 = 1, dim1 = 2, dim2 = 1, buf3 = [2, 4]\<rparr> 0 t 0) / real 2)"
    by auto
  moreover have "(\<Sum>t<2. at3 \<lparr>dim0 = 1, dim1 = 2, dim2 = 1, buf3 = [2, 4 :: real]\<rparr> 0 t 0) / real 2 = 3"
    by (simp add: at3_def eval_nat_numeral)
  ultimately show ?thesis by auto
qed

section \<open>MaskedAverager: backward\<close>

lemma nth_concat_blocks:
  assumes "\<And>i. i < n \<Longrightarrow> length (g i) = l" "i < n" "r < l"
  shows "concat (map g [0..<n]) ! (i * l + r) = g i ! r"
  using assms
proof (induction n)
  case 0
  then show ?case by simp
next
  case (Suc n)
  have len: "length (concat (map g [0..<n])) = n * l"
    using Suc.prems(1) by (induction n) simp_all
  show ?case
  proof (cases "i < n")
    case True
    then have "i * l + r < n * l"
      using Suc.prems(3) by (rule flat_index_less)
    with True Suc show ?thesis
      by (simp add: nth_append len)
  next
    case False
    with Suc.prems have "i = n" by simp
    with Suc.prems show ?thesis
      by (simp add: nth_append len)
  qed
qed

lemma average_backward_inner_eq:
  assumes "i < rows dho" "i < rows (ac_mask cache)" "i < length (ac_count cache)"
    and "\<forall>j\<in>set js. j < cols (ac_mask cache)"
  shows "average_backward_inner dho cache i js tmph = Inr (tmph @ map (dh_row dho cache i) js)"
  using assms(4)
proof (induction js arbitrary: tmph)
  case Nil
  show ?case by simp
next
  case (Cons j js)
  have e1: "np_row2 dho i = Inr (map (\<lambda>k. at2 dho i k) [0..<cols dho])"
    using assms(1) by (simp add: np_row2_def)
  have e2: "np_item2 (ac_mask cache) i j = Inr (at2 (ac_mask cache) i j)"
    using assms(2) Cons.prems by (simp add: np_item2_def)
  have e3: "py_index (ac_count cache) i = Inr (ac_count cache ! i)"
    using assms(3) by (simp add: py_index_def)
  have row: "map (\<lambda>v. np_true_divide (v * at2 (ac_mask cache) i j) (ac_count cache ! i))
               (map (\<lambda>k. at2 dho i k) [0..<cols dho]) = dh_row dho cache i j"
    by (simp add: dh_row_def comp_def)
  have "\<forall>j\<in>set js. j < cols (ac_mask cache)"
    using Cons.prems by simp
  from Cons.IH[OF this, of "tmph @ [dh_row dho cache i j]"]
  have "average_backward_inner dho cache i js (tmph @ [dh_row dho cache i j]) =
        Inr (tmph @ map (dh_row dho cache i) (j # js))"
    by simp
  then show ?case
    by (simp only: average_backward_inner.simps e1 e2 e3 ebind_Inr row)
qed

lemma average_backward_outer_eq:
  assumes "\<forall>i\<in>set idx. i < rows dho \<and> i < rows (ac_mask cache) \<and> i < length (ac_count cache)"
    and "T \<le> cols (ac_mask cache)"
  shows "average_backward_outer dho cache T idx dhi =
         Inr (dhi @ map (\<lambda>i. map (dh_row dho cache i) [0..<T]) idx)"
  using assms(1)
proof (induction idx arbitrary: dhi)
  case Nil
  show ?case by simp
next
  case (Cons i idx)
  then have i: "i < rows dho" "i < rows (ac_mask cache)" "i < length (ac_count cache)"
    by simp_all
  have js: "\<forall>j\<in>set [0..<T]. j < cols (ac_mask cache)"
    using assms(2) by simp
  have inner: "average_backward_inner dho cache i [0..<T] [] = Inr (map (dh_row dho cache i) [0..<T])"
    using average_backward_inner_eq[OF i js, of "[]"] by simp
  have "\<forall>i\<in>set idx. i < rows dho \<and> i < rows (ac_mask cache) \<and> i < length (ac_count cache)"
    using Cons.prems by simp
  from Cons.IH[OF this, of "dhi @ [map (dh_row dho cache i) [0..<T]]"] show ?case
    by (simp add: inner)
qed

lemma np_array_rows2_uniform:
  assumes "rss \<noteq> []" "\<forall>rs\<in>set rss. length rs = T" "1 \<le> T"
    and "\<forall>rs\<in>set rss. \<forall>r\<in>set rs. length r = H"
  shows "np_array_rows2 rss =
     Inr (A3 \<lparr>dim0 = length rss, dim1 = T, dim2 = H, buf3 = concat (concat rss)\<rparr>)"
proof -
  obtain rs rest where rss: "rss = rs # rest"
    using assms(1) by (cases rss) simp_all
  then have lrs: "length rs = T"
    using assms(2) by simp
  then obtain r rest' where rs: "rs = r # rest'"
    using assms(3) by (cases rs) simp_all
  then have lr: "length r = H"
    using assms(4) rss by simp
  show ?thesis
    using assms(2,4) lrs lr by (auto simp add: np_array_rows2_def rss rs)
qed

lemma concat_concat_map: "concat (concat xss) = concat (map concat xss)"
  by (induction xss) simp_all

lemma length_dh_row [simp]: "length (dh_row dho cache i j) = cols dho"
  by (simp add: dh_row_def)

lemma nth_dh_row:
  "k < cols dho \<Longrightarrow> dh_row dho cache i j ! k =
     np_true_divide (at2 dho i k * at2 (ac_mask cache) i j) (ac_count cache ! i)"
  by (simp add: dh_row_def)

lemma average_backward_eq:
  assumes "rows dho = N" "rows (ac_mask cache) = N" "length (ac_count cache) = N"
    and "cols (ac_mask cache) = T" "1 \<le> N" "1 \<le> T"
  obtains dh where "average_backward dho cache = Inr (A3 dh)"
    "dim0 dh = N" "dim1 dh = T" "dim2 dh = cols dho" "wf3 dh"
    "\<And>i t k. i < N \<Longrightarrow> t < T \<Longrightarrow> k < cols dho \<Longrightarrow>
       at3 dh i t k = np_true_divide (at2 dho i k * at2 (ac_mask cache) i t) (ac_count cache ! i)"
proof -
  let ?H = "cols dho"
  let ?blk = "\<lambda>i. map (dh_row dho cache i) [0..<T]"
  let ?rss = "map ?blk [0..<N]"
  let ?dh = "\<lparr>dim0 = length ?rss, dim1 = T, dim2 = ?H, buf3 = concat (concat ?rss)\<rparr>"
  have "\<forall>i\<in>set [0..<N]. i < rows dho \<and> i < rows (ac_mask cache) \<and> i < length (ac_count cache)"
    using assms(1-3) by simp
  from average_backward_outer_eq[OF this, of T "[]"] assms(4)
  have outer: "average_backward_outer dho cache T [0..<N] [] = Inr ?rss"
    by simp
  have ne: "?rss \<noteq> []"
    using assms(5) by simp
  have arr: "np_array_rows2 ?rss = Inr (A3 ?dh)"
    by (rule np_array_rows2_uniform[OF ne _ assms(6)]) simp_all
  have run: "average_backward dho cache = Inr (A3 ?dh)"
    using assms(1,4) outer arr by (simp add: average_backward_def Let_def)
  have flat: "concat (concat ?rss) = concat (map (\<lambda>i. concat (?blk i)) [0..<N])"
    by (simp add: concat_concat_map comp_def)
  have blen: "length (concat (?blk i)) = T * ?H" for i
    by (simp add: length_concat comp_def sum_list_triv)
  have wf: "wf3 ?dh"
    by (simp add: wf3_def flat length_concat comp_def blen sum_list_triv)
  have at: "at3 ?dh i t k =
      np_true_divide (at2 dho i k * at2 (ac_mask cache) i t) (ac_count cache ! i)"
    if "i < N" "t < T" "k < ?H" for i t k
  proof -
    have r: "t * ?H + k < T * ?H"
      using that(2,3) by (rule flat_index_less)
    have "(i * T + t) * ?H + k = i * (T * ?H) + (t * ?H + k)"
      by (simp add: algebra_simps)
    then have "at3 ?dh i t k = concat (map (\<lambda>i. concat (?blk i)) [0..<N]) ! (i * (T * ?H) + (t * ?H + k))"
      by (simp add: at3_def flat add.assoc)
    also have "\<dots> = concat (?blk i) ! (t * ?H + k)"
      using that(1) r by (intro nth_concat_blocks) (simp_all add: blen)
    also have "\<dots> = dh_row dho cache i t ! k"
      using that(2,3) by (intro nth_concat_blocks) simp_all
    finally show ?thesis
      using that(3) by (simp add: nth_dh_row)
  qed
  show thesis
    by (rule that[of ?dh]) (use run wf at in simp_all)
qed

lemmas avg_bwd_eval = average_backward_def np_array_rows2_def np_item2_def avg_eval

lemma average_backward_empty_batch:
  assumes "rows dho = 0"
  shows "average_backward dho cache = Inr (A1 [])"
  using assms by (simp add: average_backward_def np_array_rows2_def)

text \<open>
  C7. For \<open>davg\<close> of shape \<open>(N,H)\<close> and the cache of the matching \<open>average_forward\<close> call with
  nonzero counts, \<open>average_backward\<close> is to return \<open>dh\<close> of shape \<open>(N,T,H)\<close>, the shape of the
  original \<open>h\<close>, with \<open>dh[i,t] = davg[i] * mask[i,t] / count[i]\<close>. On an empty batch the code
  does not: for \<open>h\<close> of shape \<open>(0,1,1)\<close> the forward call returns the cache below, and on it
  and \<open>davg\<close> of shape \<open>(0,1)\<close> the outer loop appends nothing, \<open>np.array\<close> of the empty list
  is the rank-1 array of shape \<open>(0,)\<close>, and that array is returned in place of one of shape
  \<open>(0,1,1)\<close>.
\<close>

theorem average_backward_empty_batch_rank1:
  "average_forward \<lparr>dim0 = 0, dim1 = 1, dim2 = 1, buf3 = []\<rparr> \<lparr>rows = 0, cols = 1, buf2 = []\<rparr> =
     Inr (A1 [], \<lparr>ac_mask = \<lparr>rows = 0, cols = 1, buf2 = []\<rparr>, ac_count = []\<rparr>)
   \<and> average_backward \<lparr>rows = 0, cols = 1, buf2 = []\<rparr>
       \<lparr>ac_mask = \<lparr>rows = 0, cols = 1, buf2 = []\<rparr>, ac_count = []\<rparr> = Inr (A1 [])"
  by (simp add: avg_bwd_eval)

text \<open>
  With at least one sample the layer redistributes the gradient: for \<open>davg\<close> of shape
  \<open>(N,H)\<close> with \<open>N \<ge> 1\<close> and the cache of the matching \<open>average_forward\<close> call with nonzero
  counts, \<open>average_backward\<close> returns \<open>dh\<close> of shape \<open>(N,T,H)\<close> with
  \<open>dh[i,t] = davg[i] * mask[i,t] / count[i]\<close>; a position with \<open>mask[i,t] = 0\<close> receives
  exactly zero.
\<close>

theorem average_backward_redistributes:
  assumes "dim0 hi = N" "dim1 hi = T" "dim2 hi = H" "rows msk = N" "cols msk = T"
    and "1 \<le> N" "\<forall>i<N. (\<Sum>t<T. at2 msk i t) \<noteq> 0"
    and "average_forward hi msk = Inr (avg, cache)"
    and "rows davg = N" "cols davg = H"
  shows "\<exists>dh. average_backward davg cache = Inr (A3 dh)
     \<and> dim0 dh = N \<and> dim1 dh = T \<and> dim2 dh = H \<and> wf3 dh
     \<and> (\<forall>i<N. \<forall>t<T. \<forall>k<H.
           at3 dh i t k = Finite (at2 davg i k * at2 msk i t / (\<Sum>t<T. at2 msk i t)))
     \<and> (\<forall>i<N. \<forall>t<T. \<forall>k<H. at2 msk i t = 0 \<longrightarrow> at3 dh i t k = Finite 0)"
proof -
  have s: "rows msk = dim0 hi" "cols msk = dim1 hi" "1 \<le> dim0 hi"
    using assms(1-6) by simp_all
  from average_forward_eq[OF s] assms(8)
  have cache: "cache = \<lparr>ac_mask = msk, ac_count = np_sum_axis1 msk\<rparr>"
    by simp
  have T: "1 \<le> T"
  proof (rule ccontr)
    assume "\<not> 1 \<le> T"
    then have "T = 0" by simp
    with assms(6,7) show False by auto
  qed
  have c: "rows (ac_mask cache) = N" "length (ac_count cache) = N" "cols (ac_mask cache) = T"
    using assms(4,5) by (simp_all add: cache)
  have cnt: "ac_count cache ! i = (\<Sum>t<T. at2 msk i t)" if "i < N" for i
    using that assms(4,5) by (simp add: cache nth_np_sum_axis1 mask_count_def)
  show ?thesis
  proof (rule average_backward_eq[OF assms(9) c(1,2,3) assms(6) T])
    fix dh
    assume dh: "average_backward davg cache = Inr (A3 dh)"
      "dim0 dh = N" "dim1 dh = T" "dim2 dh = cols davg" "wf3 dh"
      "\<And>i t k. i < N \<Longrightarrow> t < T \<Longrightarrow> k < cols davg \<Longrightarrow>
         at3 dh i t k =
           np_true_divide (at2 davg i k * at2 (ac_mask cache) i t) (ac_count cache ! i)"
    have e: "at3 dh i t k = Finite (at2 davg i k * at2 msk i t / (\<Sum>t<T. at2 msk i t))"
      if "i < N" "t < T" "k < H" for i t k
      using that dh(6)[of i t k] assms(7,10) cnt[of i]
      by (simp add: np_true_divide_def cache)
    have z: "at3 dh i t k = Finite 0" if "i < N" "t < T" "k < H" "at2 msk i t = 0" for i t k
      using e[OF that(1-3)] that(4) by simp
    from dh(1-5) assms(10) e z show ?thesis
      by (intro exI[of _ dh]) simp
  qed
qed

theorem average_backward_redistributes_witness:
  "\<exists>dh. average_backward \<lparr>rows = 1, cols = 1, buf2 = [6]\<rparr>
       \<lparr>ac_mask = \<lparr>rows = 1, cols = 2, buf2 = [1, 0]\<rparr>, ac_count = [1]\<rparr> = Inr (A3 dh)
     \<and> dim0 dh = 1 \<and> dim1 dh = 2 \<and> dim2 dh = 1
     \<and> at3 dh 0 0 0 = Finite 6 \<and> at3 dh 0 1 0 = Finite 0"
proof -
  have fw: "average_forward \<lparr>dim0 = 1, dim1 = 2, dim2 = 1, buf3 = [2, 4]\<rparr>
       \<lparr>rows = 1, cols = 2, buf2 = [1, 0]\<rparr> =
     Inr (A2 \<lparr>rows = 1, cols = 1, buf2 = [Finite 2]\<rparr>,
          \<lparr>ac_mask = \<lparr>rows = 1, cols = 2, buf2 = [1, 0]\<rparr>, ac_count = [1]\<rparr>)"
    by (simp add: avg_eval eval_nat_numeral)
  have c: "\<forall>i<1. (\<Sum>t<2. at2 \<lparr>rows = 1, cols = 2, buf2 = [1, 0 :: real]\<rparr> i t) \<noteq> 0"
    by (simp add: at2_def eval_nat_numeral)
  from average_backward_redistributes
    [of "\<lparr>dim0 = 1, dim1 = 2, dim2 = 1, buf3 = [2, 4]\<rparr>" 1 2 1
        "\<lparr>rows = 1, cols = 2, buf2 = [1, 0]\<rparr>" _ _ "\<lparr>rows = 1, cols = 1, buf2 = [6]\<rparr>",
     OF _ _ _ _ _ _ c fw]
  obtain dh where
    "average_backward \<lparr>rows = 1, cols = 1, buf2 = [6]\<rparr>
       \<lparr>ac_mask = \<lparr>rows = 1, cols = 2, buf2 = [1, 0]\<rparr>, ac_count = [1]\<rparr> = Inr (A3 dh)"
    "dim0 dh = 1" "dim1 dh = 2" "dim2 dh = 1"
    "\<forall>i<1. \<forall>t<2. \<forall>k<1. at3 dh i t k =
       Finite (at2 \<lparr>rows = 1, cols = 1, buf2 = [6]\<rparr> i k *
               at2 \<lparr>rows = 1, cols = 2, buf2 = [1, 0]\<rparr> i t /
               (\<Sum>t<2. at2 \<lparr>rows = 1, cols = 2, buf2 = [1, 0]\<rparr> i t))"
    by auto
  then show ?thesis
    by (auto simp add: at2_def eval_nat_numeral)
qed

section \<open>TemporalAffine\<close>

lemma sum_flat_index:
  fixes f :: "nat \<Rightarrow> real"
  shows "(\<Sum>r<N * T. f r) = (\<Sum>i<N. \<Sum>t<T. f (i * T + t))"
proof -
  have blk: "(\<Sum>t<T. f (i * T + t)) = sum f {i * T..<i * T + T}" for i
  proof -
    have "sum f {0 + i * T..<T + i * T} = (\<Sum>t = 0..<T. f (t + i * T))"
      by (rule sum.shift_bounds_nat_ivl)
    then show ?thesis
      by (simp add: atLeast0LessThan add.commute)
  qed
  have "(\<Sum>i<N. \<Sum>t<T. f (i * T + t)) = (\<Sum>i<N. sum f {i * T..<i * T + T})"
    by (simp only: blk)
  also have "\<dots> = sum f {..<N * T}"
    by (rule sum.nat_group)
  finally show ?thesis by simp
qed

lemma np_reshape32_eq:
  assumes "dim0 a * dim1 a * dim2 a = n * m"
  shows "np_reshape32 a n m = Inr \<lparr>rows = n, cols = m, buf2 = buf3 a\<rparr>"
  using assms by (simp add: np_reshape32_def)

lemma at2_flattened:
  "at2 \<lparr>rows = n, cols = dim2 a, buf2 = buf3 a\<rparr> (i * dim1 a + t) k = at3 a i t k"
  by (simp add: at2_def at3_def)

lemma np_reshape23_eq:
  assumes "rows a * cols a = n * m * l"
  shows "np_reshape23 a n m l = Inr \<lparr>dim0 = n, dim1 = m, dim2 = l, buf3 = buf2 a\<rparr>"
  using assms by (simp add: np_reshape23_def)

lemma at3_unflattened:
  "at3 \<lparr>dim0 = n, dim1 = m, dim2 = cols a, buf3 = buf2 a\<rparr> i t k = at2 a (i * m + t) k"
  by (simp add: at2_def at3_def)

lemma length_np_sum_axis01 [simp]: "length (np_sum_axis01 a) = dim2 a"
  by (simp add: np_sum_axis01_def)

lemma nth_np_sum_axis01:
  "k < dim2 a \<Longrightarrow> np_sum_axis01 a ! k = (\<Sum>i<dim0 a. \<Sum>t<dim1 a. at3 a i t k)"
  by (simp add: np_sum_axis01_def sum_list_upt)

lemma temporal_affine_forward_eq:
  assumes "dim0 x = N" "dim1 x = T" "dim2 x = D" "rows w = D" "cols w = M" "length b = M"
  obtains out where "temporal_affine_forward x w b = Inr (out, (x, w, b, out))"
    "dim0 out = N" "dim1 out = T" "dim2 out = M" "wf3 out"
    "\<And>i t m. i < N \<Longrightarrow> t < T \<Longrightarrow> m < M \<Longrightarrow>
       at3 out i t m = (\<Sum>d<D. at3 x i t d * at2 w d m) + b ! m"
proof -
  define x2 where "x2 = \<lparr>rows = N * T, cols = D, buf2 = buf3 x\<rparr>"
  define y where "y = mk2 (N * T) M (\<lambda>r m. \<Sum>d<D. at2 x2 r d * at2 w d m)"
  define y3 where "y3 = \<lparr>dim0 = N, dim1 = T, dim2 = M, buf3 = buf2 y\<rparr>"
  define out where "out = mk3 N T M (\<lambda>i t k. at3 y3 i t (bidx M k) + b ! bidx M k)"
  have e1: "np_reshape32 x (N * T) D = Inr x2"
    using assms(1-3) by (simp add: np_reshape32_eq x2_def)
  have e2: "np_dot x2 w = Inr y"
    using assms(4,5) by (simp add: np_dot_eq x2_def y_def)
  have e3: "np_reshape23 y N T M = Inr y3"
    by (simp add: np_reshape23_eq y_def y3_def)
  have e4: "np_add31 y3 b = Inr out"
    using assms(6) by (simp add: np_add31_def y3_def out_def)
  have run: "temporal_affine_forward x w b = Inr (out, (x, w, b, out))"
    using assms(1-3,6) by (simp add: temporal_affine_forward_def Let_def e1 e2 e3 e4)
  have at: "at3 out i t m = (\<Sum>d<D. at3 x i t d * at2 w d m) + b ! m"
    if "i < N" "t < T" "m < M" for i t m
  proof -
    have r: "i * T + t < N * T"
      using that(1,2) by (rule flat_index_less)
    have "at3 y3 i t m = at2 y (i * T + t) m"
      using at3_unflattened[of N T y i t m] by (simp add: y3_def y_def)
    also have "\<dots> = (\<Sum>d<D. at2 x2 (i * T + t) d * at2 w d m)"
      using r that(3) by (simp add: y_def)
    also have "\<dots> = (\<Sum>d<D. at3 x i t d * at2 w d m)"
      using at2_flattened[of "N * T" x i t] assms(2,3) by (simp add: x2_def)
    finally show ?thesis
      using that by (simp add: out_def)
  qed
  show thesis
    by (rule that[of out]) (use run at in \<open>simp_all add: out_def\<close>)
qed

lemma temporal_affine_backward_eq:
  assumes "dim0 x = N" "dim1 x = T" "dim2 x = D" "rows w = D" "cols w = M" "length b = M"
    and "dim0 dout = N" "dim1 dout = T" "dim2 dout = M"
  obtains dx dw db where "temporal_affine_backward dout (x, w, b, out) = Inr (dx, dw, db)"
    "dim0 dx = N" "dim1 dx = T" "dim2 dx = D" "rows dw = D" "cols dw = M" "length db = M"
    "\<And>i t d. i < N \<Longrightarrow> t < T \<Longrightarrow> d < D \<Longrightarrow>
       at3 dx i t d = (\<Sum>m<M. at3 dout i t m * at2 w d m)"
    "\<And>d m. d < D \<Longrightarrow> m < M \<Longrightarrow>
       at2 dw d m = (\<Sum>i<N. \<Sum>t<T. at3 x i t d * at3 dout i t m)"
    "\<And>m. m < M \<Longrightarrow> db ! m = (\<Sum>i<N. \<Sum>t<T. at3 dout i t m)"
proof -
  define d2 where "d2 = \<lparr>rows = N * T, cols = M, buf2 = buf3 dout\<rparr>"
  define x2 where "x2 = \<lparr>rows = N * T, cols = D, buf2 = buf3 x\<rparr>"
  define dx2 where
    "dx2 = mk2 (N * T) D (\<lambda>r d. \<Sum>m<M. at2 d2 r m * at2 (np_transpose2 w) m d)"
  define dx where "dx = \<lparr>dim0 = N, dim1 = T, dim2 = D, buf3 = buf2 dx2\<rparr>"
  define dwT where
    "dwT = mk2 M D (\<lambda>m d. \<Sum>r<N * T. at2 (np_transpose2 d2) m r * at2 x2 r d)"
  have e1: "np_reshape32 dout (N * T) M = Inr d2"
    using assms(7-9) by (simp add: np_reshape32_eq d2_def)
  have e2: "np_dot d2 (np_transpose2 w) = Inr dx2"
    using assms(4,5) by (simp add: np_dot_eq d2_def dx2_def)
  have e3: "np_reshape23 dx2 N T D = Inr dx"
    by (simp add: np_reshape23_eq dx2_def dx_def)
  have e4: "np_reshape32 x (N * T) D = Inr x2"
    using assms(1-3) by (simp add: np_reshape32_eq x2_def)
  have e5: "np_dot (np_transpose2 d2) x2 = Inr dwT"
    by (simp add: np_dot_eq d2_def x2_def dwT_def)
  have run: "temporal_affine_backward dout (x, w, b, out) =
      Inr (dx, np_transpose2 dwT, np_sum_axis01 dout)"
    using assms(1-3,6) by (simp add: temporal_affine_backward_def Let_def e1 e2 e3 e4 e5)
  have d2_at: "at2 d2 (i * T + t) m = at3 dout i t m" for i t m
    using at2_flattened[of "N * T" dout i t m] assms(8,9) by (simp add: d2_def)
  have x2_at: "at2 x2 (i * T + t) d = at3 x i t d" for i t d
    using at2_flattened[of "N * T" x i t d] assms(2,3) by (simp add: x2_def)
  have dx_at: "at3 dx i t d = (\<Sum>m<M. at3 dout i t m * at2 w d m)"
    if "i < N" "t < T" "d < D" for i t d
  proof -
    have r: "i * T + t < N * T"
      using that(1,2) by (rule flat_index_less)
    have "at3 dx i t d = at2 dx2 (i * T + t) d"
      using at3_unflattened[of N T dx2 i t d] by (simp add: dx_def dx2_def)
    also have "\<dots> = (\<Sum>m<M. at2 d2 (i * T + t) m * at2 (np_transpose2 w) m d)"
      using r that(3) by (simp add: dx2_def)
    also have "\<dots> = (\<Sum>m<M. at3 dout i t m * at2 w d m)"
      using that(3) assms(4,5) by (intro sum.cong) (simp_all add: d2_at)
    finally show ?thesis .
  qed
  have dw_at: "at2 (np_transpose2 dwT) d m = (\<Sum>i<N. \<Sum>t<T. at3 x i t d * at3 dout i t m)"
    if "d < D" "m < M" for d m
  proof -
    have "at2 (np_transpose2 dwT) d m = at2 dwT m d"
      using that by (simp add: dwT_def)
    also have "\<dots> = (\<Sum>r<N * T. at2 (np_transpose2 d2) m r * at2 x2 r d)"
      using that by (simp add: dwT_def)
    also have "\<dots> = (\<Sum>r<N * T. at2 x2 r d * at2 d2 r m)"
      using that(2) by (intro sum.cong) (simp_all add: d2_def mult.commute)
    also have "\<dots> = (\<Sum>i<N. \<Sum>t<T. at2 x2 (i * T + t) d * at2 d2 (i * T + t) m)"
      by (rule sum_flat_index)
    finally show ?thesis
      by (simp add: d2_at x2_at)
  qed
  have db_at: "np_sum_axis01 dout ! m = (\<Sum>i<N. \<Sum>t<T. at3 dout i t m)" if "m < M" for m
    using that assms(7-9) by (simp add: nth_np_sum_axis01)
  show thesis
    by (rule that[of dx "np_transpose2 dwT" "np_sum_axis01 dout"])
      (use run dx_at dw_at db_at assms(9) in \<open>simp_all add: dx_def dwT_def\<close>)
qed

text \<open>
  C9. For \<open>dout\<close> of shape \<open>(N,T,M)\<close> and the cache of the matching
  \<open>temporal_affine_forward\<close> call (whose output is \<open>out[i,t] = x[i,t]\<cdot>w + b\<close>),
  \<open>temporal_affine_backward\<close> returns \<open>dx\<close> with \<open>dx[i,t] = dout[i,t]\<cdot>w\<^sup>T\<close>, \<open>dw\<close> the sum over
  all pairs \<open>(i,t)\<close> of \<open>x[i,t]\<^sup>T\<cdot>dout[i,t]\<close>, and \<open>db\<close> the sum over all pairs \<open>(i,t)\<close> of
  \<open>dout[i,t]\<close>.
\<close>

theorem temporal_affine_backward_gradients:
  assumes "dim0 x = N" "dim1 x = T" "dim2 x = D" "rows w = D" "cols w = M" "length b = M"
    and "temporal_affine_forward x w b = Inr (out, cache)"
    and "dim0 dout = N" "dim1 dout = T" "dim2 dout = M"
  shows "\<exists>dx dw db. temporal_affine_backward dout cache = Inr (dx, dw, db)
    \<and> dim0 dx = N \<and> dim1 dx = T \<and> dim2 dx = D \<and> rows dw = D \<and> cols dw = M \<and> length db = M
    \<and> (\<forall>i<N. \<forall>t<T. \<forall>m<M. at3 out i t m = (\<Sum>d<D. at3 x i t d * at2 w d m) + b ! m)
    \<and> (\<forall>i<N. \<forall>t<T. \<forall>d<D. at3 dx i t d = (\<Sum>m<M. at3 dout i t m * at2 w d m))
    \<and> (\<forall>d<D. \<forall>m<M. at2 dw d m = (\<Sum>i<N. \<Sum>t<T. at3 x i t d * at3 dout i t m))
    \<and> (\<forall>m<M. db ! m = (\<Sum>i<N. \<Sum>t<T. at3 dout i t m))"
proof (rule temporal_affine_forward_eq[OF assms(1-6)])
  fix out'
  assume f: "temporal_affine_forward x w b = Inr (out', (x, w, b, out'))"
    "\<And>i t m. i < N \<Longrightarrow> t < T \<Longrightarrow> m < M \<Longrightarrow>
       at3 out' i t m = (\<Sum>d<D. at3 x i t d * at2 w d m) + b ! m"
  from f(1) assms(7) have eq: "out = out'" "cache = (x, w, b, out')"
    by simp_all
  show ?thesis
  proof (rule temporal_affine_backward_eq[OF assms(1-6,8-10), of out'])
    fix dx dw db
    assume b: "temporal_affine_backward dout (x, w, b, out') = Inr (dx, dw, db)"
      "dim0 dx = N" "dim1 dx = T" "dim2 dx = D" "rows dw = D" "cols dw = M" "length db = M"
      "\<And>i t d. i < N \<Longrightarrow> t < T \<Longrightarrow> d < D \<Longrightarrow>
         at3 dx i t d = (\<Sum>m<M. at3 dout i t m * at2 w d m)"
      "\<And>d m. d < D \<Longrightarrow> m < M \<Longrightarrow>
         at2 dw d m = (\<Sum>i<N. \<Sum>t<T. at3 x i t d * at3 dout i t m)"
      "\<And>m. m < M \<Longrightarrow> db ! m = (\<Sum>i<N. \<Sum>t<T. at3 dout i t m)"
    from b f(2) show ?thesis
      by (intro exI[of _ dx] exI[of _ dw] exI[of _ db]) (simp add: eq)
  qed
qed

lemmas affine_eval = temporal_affine_forward_def np_reshape32_def np_reshape23_def np_add31_def
  mk3_def at3_def Let_def np_eval

lemma affine_forward_example:
  "temporal_affine_forward \<lparr>dim0 = 1, dim1 = 2, dim2 = 1, buf3 = [2, 3]\<rparr>
      \<lparr>rows = 1, cols = 1, buf2 = [5]\<rparr> [1] =
   Inr (\<lparr>dim0 = 1, dim1 = 2, dim2 = 1, buf3 = [11, 16]\<rparr>,
        (\<lparr>dim0 = 1, dim1 = 2, dim2 = 1, buf3 = [2, 3]\<rparr>, \<lparr>rows = 1, cols = 1, buf2 = [5]\<rparr>, [1],
         \<lparr>dim0 = 1, dim1 = 2, dim2 = 1, buf3 = [11, 16]\<rparr>))"
  by (simp add: affine_eval eval_nat_numeral)

theorem temporal_affine_backward_gradients_witness:
  "\<exists>dx dw db.
     temporal_affine_backward \<lparr>dim0 = 1, dim1 = 2, dim2 = 1, buf3 = [1, 10]\<rparr>
       (\<lparr>dim0 = 1, dim1 = 2, dim2 = 1, buf3 = [2, 3]\<rparr>, \<lparr>rows = 1, cols = 1, buf2 = [5]\<rparr>, [1],
        \<lparr>dim0 = 1, dim1 = 2, dim2 = 1, buf3 = [11, 16]\<rparr>) = Inr (dx, dw, db)
     \<and> dim0 dx = 1 \<and> dim1 dx = 2 \<and> dim2 dx = 1
     \<and> at3 dx 0 0 0 = 5 \<and> at3 dx 0 1 0 = 50 \<and> at2 dw 0 0 = 32 \<and> db ! 0 = 11"
proof -
  from temporal_affine_backward_gradients
    [of "\<lparr>dim0 = 1, dim1 = 2, dim2 = 1, buf3 = [2, 3]\<rparr>" 1 2 1 "\<lparr>rows = 1, cols = 1, buf2 = [5]\<rparr>" 1
        "[1]" _ _ "\<lparr>dim0 = 1, dim1 = 2, dim2 = 1, buf3 = [1, 10]\<rparr>",
     OF _ _ _ _ _ _ affine_forward_example]
  obtain dx dw db where r:
    "temporal_affine_backward \<lparr>dim0 = 1, dim1 = 2, dim2 = 1, buf3 = [1, 10]\<rparr>
       (\<lparr>dim0 = 1, dim1 = 2, dim2 = 1, buf3 = [2, 3]\<rparr>, \<lparr>rows = 1, cols = 1, buf2 = [5]\<rparr>, [1],
        \<lparr>dim0 = 1, dim1 = 2, dim2 = 1, buf3 = [11, 16]\<rparr>) = Inr (dx, dw, db)"
    "dim0 dx = 1" "dim1 dx = 2" "dim2 dx = 1"
    "\<forall>i<1. \<forall>t<2. \<forall>d<1. at3 dx i t d =
        (\<Sum>m<1. at3 \<lparr>dim0 = 1, dim1 = 2, dim2 = 1, buf3 = [1, 10]\<rparr> i t m *
                 at2 \<lparr>rows = 1, cols = 1, buf2 = [5]\<rparr> d m)"
    "\<forall>d<1. \<forall>m<1. at2 dw d m =
        (\<Sum>i<1. \<Sum>t<2. at3 \<lparr>dim0 = 1, dim1 = 2, dim2 = 1, buf3 = [2, 3]\<rparr> i t d *
                        at3 \<lparr>dim0 = 1, dim1 = 2, dim2 = 1, buf3 = [1, 10]\<rparr> i t m)"
    "\<forall>m<1. db ! m = (\<Sum>i<1. \<Sum>t<2. at3 \<lparr>dim0 = 1, dim1 = 2, dim2 = 1, buf3 = [1, 10]\<rparr> i t m)"
    by auto
  have v: "at3 \<lparr>dim0 = 1, dim1 = 2, dim2 = 1, buf3 = [1, 10 :: real]\<rparr> 0 0 0 = 1"
    "at3 \<lparr>dim0 = 1, dim1 = 2, dim2 = 1, buf3 = [1, 10 :: real]\<rparr> 0 1 0 = 10"
    "at3 \<lparr>dim0 = 1, dim1 = 2, dim2 = 1, buf3 = [2, 3 :: real]\<rparr> 0 0 0 = 2"
    "at3 \<lparr>dim0 = 1, dim1 = 2, dim2 = 1, buf3 = [2, 3 :: real]\<rparr> 0 1 0 = 3"
    "at2 \<lparr>rows = 1, cols = 1, buf2 = [5 :: real]\<rparr> 0 0 = 5"
    by (simp_all add: at3_def at2_def)
  have "at3 dx 0 0 0 = 5"
    using r(5)[rule_format, of 0 0 0] v by simp
  moreover have "at3 dx 0 1 0 = 50"
    using r(5)[rule_format, of 0 1 0] v by simp
  moreover have "at2 dw 0 0 = 32"
    using r(6)[rule_format, of 0 0] v by (simp add: eval_nat_numeral)
  moreover have "db ! 0 = 11"
    using r(7)[rule_format, of 0] v by (simp add: eval_nat_numeral)
  ultimately show ?thesis
    using r(1-4) by blast
qed

end
